theory Spec2Isabelle
  imports Main "HOL-Library.Word" "HOL-Library.AList"
begin

section \<open>The session layer of the binder RPC runtime (RpcSession.cpp)\<close>

text \<open>
  A shallow embedding of \<^verbatim>\<open>libs/binder/RpcSession.cpp\<close>. Every critical section of
  the source (a block run under \<^verbatim>\<open>mMutex\<close>) is one function on the session state.
  Where a thread gives the mutex up in the middle of a function (a wait on a condition
  variable, a call into the wire codec), the model takes what the other threads do in
  the meantime as an argument.

  \<^item> \<^verbatim>\<open>pid_t\<close> thread ids and \<^verbatim>\<open>size_t\<close> sizes, indices and counters are \<open>nat\<close>:
    an index is below a vector's size and a counter below the number of threads, so
    none of them reaches the width of \<^verbatim>\<open>size_t\<close>.
  \<^item> \<^verbatim>\<open>status_t\<close> and errno values are \<open>int\<close>.
  \<^item> \<^verbatim>\<open>uint32_t\<close> protocol versions are \<open>32 word\<close>.
  \<^item> \<^verbatim>\<open>sp<RpcConnection>\<close> is an address into a store of connection objects: both
    pools, an exclusive handle and a worker's local variable may refer to one object.
  \<^item> \<^verbatim>\<open>LOG_ALWAYS_FATAL_IF\<close> aborts the process: a result of its own.
\<close>

subsection \<open>Status codes\<close>

type_synonym status_t = int

definition OK :: status_t where "OK = 0"
definition UNKNOWN_ERROR :: status_t where "UNKNOWN_ERROR = - 2147483648"
definition WOULD_BLOCK :: status_t where "WOULD_BLOCK = - 11"
definition BAD_VALUE :: status_t where "BAD_VALUE = - 22"
definition DEAD_OBJECT :: status_t where "DEAD_OBJECT = - 32"
definition INVALID_OPERATION :: status_t where "INVALID_OPERATION = - 38"

lemmas status_defs =
  OK_def UNKNOWN_ERROR_def WOULD_BLOCK_def BAD_VALUE_def DEAD_OBJECT_def
  INVALID_OPERATION_def

subsection \<open>Connections, the session and exclusive handles\<close>

type_synonym tid = nat
type_synonym conn_ref = nat
type_synonym transport = nat

text \<open>\<^verbatim>\<open>struct RpcConnection\<close>: the transport (an opaque handle), the thread that
  uses the connection exclusively, and the nested-use bit.\<close>

record RpcConnection =
  rpcTransport :: "transport option"
  exclusiveTid :: "tid option"
  allowNested :: bool

datatype ConnectionUse = CLIENT | CLIENT_ASYNC | CLIENT_REFCOUNT

text \<open>\<^verbatim>\<open>std::thread\<close> handle stored in \<^verbatim>\<open>mThreads\<close>.\<close>

datatype std_thread = Thread tid

text \<open>\<^verbatim>\<open>wp<EventListener> mEventListener\<close>: nothing, the session's own
  \<^verbatim>\<open>WaitForShutdownListener\<close> (a client), or the listener a server installed.\<close>

datatype EventListener = NoListener | ShutdownListener | ServerListener

text \<open>
  The members of \<^verbatim>\<open>RpcSession\<close> that the functions below read or write.
  \<open>mStore\<close> holds the connection objects and \<open>mNextConn\<close> is the address the next
  \<^verbatim>\<open>sp<RpcConnection>::make()\<close> returns. \<open>mShutdownTrigger\<close> is \<open>None\<close> for a null
  pointer and otherwise holds whether the trigger has fired. \<open>mShutdownListener\<close> is
  \<open>None\<close> for a null pointer and otherwise holds the listener's \<^verbatim>\<open>mShutdown\<close> flag.
  \<open>mThreads\<close>, a \<^verbatim>\<open>std::map\<close>, is an association list with one entry for each key.
  \<open>mForServer\<close> holds whether \<^verbatim>\<open>mForServer\<close> is set.
  \<open>mNotifyOne\<close> counts the calls of \<^verbatim>\<open>mAvailableConnectionCv.notify_one()\<close> and
  \<open>mListenerNotifyAll\<close> those of the listener's \<^verbatim>\<open>mCv.notify_all()\<close>.
  \<open>mPendingAllEnded\<close> counts the threads that have left the critical section of
  \<^verbatim>\<open>removeIncomingConnection\<close> with the pool empty and have yet to call
  \<^verbatim>\<open>onSessionAllIncomingThreadsEnded\<close>: they hold no lock in between.
\<close>

record RpcSession =
  mStore :: "conn_ref \<Rightarrow> RpcConnection"
  mNextConn :: conn_ref
  mOutgoingConnections :: "conn_ref list"
  mOutgoingConnectionsOffset :: nat
  mIncomingConnections :: "conn_ref list"
  mMaxIncomingConnections :: nat
  mMaxThreads :: nat
  mWaitingThreads :: nat
  mProtocolVersion :: "32 word option"
  mThreads :: "(tid \<times> std_thread) list"
  mShutdownTrigger :: "bool option"
  mShutdownListener :: "bool option"
  mEventListener :: EventListener
  mForServer :: bool
  mNotifyOne :: nat
  mListenerNotifyAll :: nat
  mPendingAllEnded :: nat

text \<open>\<^verbatim>\<open>class ExclusiveConnection\<close>; \<^verbatim>\<open>mSession\<close> is the session at hand.\<close>

record ExclusiveConnection =
  mConnection :: "conn_ref option"
  mReentrant :: bool

text \<open>Writing the owner field of a connection object through a pointer.\<close>

definition set_exclusiveTid :: "conn_ref \<Rightarrow> tid option \<Rightarrow> RpcSession \<Rightarrow> RpcSession" where
  "set_exclusiveTid c t s =
     s\<lparr>mStore := (mStore s)(c := (mStore s c)\<lparr>exclusiveTid := t\<rparr>)\<rparr>"

subsection \<open>ExclusiveConnection::findConnection\<close>

text \<open>
  The out-parameter \<^verbatim>\<open>sp<RpcConnection>* available\<close> may be a null pointer (\<open>None\<close>);
  \<open>Some None\<close> is a pointer to a null \<^verbatim>\<open>sp\<close>. \<^verbatim>\<open>exclusive\<close> is dereferenced
  without a check, so it is never a null pointer and only its value is passed.
  The loop runs over \<open>i = 0, ..., size - 1\<close>; \<^verbatim>\<open>continue\<close> and \<^verbatim>\<open>break\<close> are the
  recursive call and the return.
\<close>

fun findConnection_loop ::
  "tid \<Rightarrow> (conn_ref \<Rightarrow> RpcConnection) \<Rightarrow> conn_ref list \<Rightarrow> nat \<Rightarrow> nat list \<Rightarrow>
   conn_ref option \<Rightarrow> conn_ref option option \<Rightarrow> conn_ref option \<times> conn_ref option option" where
  "findConnection_loop t st sockets hint [] exclusive available = (exclusive, available)"
| "findConnection_loop t st sockets hint (i # is) exclusive available =
     (let socket = sockets ! ((i + hint) mod length sockets) in
      if available = Some None \<and> exclusiveTid (st socket) = None
      then findConnection_loop t st sockets hint is exclusive (Some (Some socket))
      else if exclusiveTid (st socket) = Some t
      then (Some socket, available)
      else findConnection_loop t st sockets hint is exclusive available)"

text \<open>\<open>None\<close> is the fatal \<^verbatim>\<open>Bad index\<close> abort.\<close>

definition findConnection ::
  "tid \<Rightarrow> conn_ref option \<Rightarrow> conn_ref option option \<Rightarrow> (conn_ref \<Rightarrow> RpcConnection) \<Rightarrow>
   conn_ref list \<Rightarrow> nat \<Rightarrow> (conn_ref option \<times> conn_ref option option) option" where
  "findConnection t exclusive available st sockets socketsIndexHint =
     (if length sockets > 0 \<and> socketsIndexHint \<ge> length sockets then None
      else if exclusive \<noteq> None then Some (exclusive, available)
      else Some (findConnection_loop t st sockets socketsIndexHint [0..<length sockets]
                   exclusive available))"

subsection \<open>ExclusiveConnection::find\<close>

text \<open>One pass through the body of \<^verbatim>\<open>while (true)\<close>, under the mutex.\<close>

datatype find_step =
    Break RpcSession ExclusiveConnection
  | ReturnWouldBlock RpcSession
  | CvWait RpcSession
  | Fatal

definition sp_value :: "conn_ref option option \<Rightarrow> conn_ref option" where
  "sp_value p = (case p of None \<Rightarrow> None | Some v \<Rightarrow> v)"

text \<open>The two candidates of the scan of the outgoing pool.\<close>

definition scan_outgoing :: "tid \<Rightarrow> RpcSession \<Rightarrow> (conn_ref option \<times> conn_ref option) option" where
  "scan_outgoing t s =
     (case findConnection t None (Some None) (mStore s) (mOutgoingConnections s)
             (mOutgoingConnectionsOffset s) of
        None \<Rightarrow> None
      | Some (exclusive, available) \<Rightarrow> Some (exclusive, sp_value available))"

text \<open>The block \<^verbatim>\<open>USE SERVING SOCKET\<close>: the value of \<^verbatim>\<open>exclusive\<close> after it.\<close>

definition use_serving_socket ::
  "tid \<Rightarrow> ConnectionUse \<Rightarrow> RpcSession \<Rightarrow> conn_ref option \<Rightarrow> conn_ref option \<Rightarrow>
   conn_ref option option" where
  "use_serving_socket t use s exclusive available =
     (if use \<noteq> CLIENT_ASYNC then
        (case findConnection t None None (mStore s) (mIncomingConnections s) 0 of
           None \<Rightarrow> None
         | Some (exclusiveIncoming, _) \<Rightarrow>
             (case exclusiveIncoming of
                None \<Rightarrow> Some exclusive
              | Some ei \<Rightarrow>
                  if allowNested (mStore s ei) then Some (Some ei)
                  else if use = CLIENT_REFCOUNT \<and> available = None then Some (Some ei)
                  else Some exclusive))
      else Some exclusive)"

definition find_body :: "tid \<Rightarrow> ConnectionUse \<Rightarrow> RpcSession \<Rightarrow> find_step" where
  "find_body t use s =
     (case scan_outgoing t s of
        None \<Rightarrow> Fatal
      | Some (exclusive0, available) \<Rightarrow>
          let s1 = (if use = CLIENT_ASYNC \<and> (exclusive0 \<noteq> None \<or> available \<noteq> None)
                    then s\<lparr>mOutgoingConnectionsOffset :=
                             (mOutgoingConnectionsOffset s + 1) mod length (mOutgoingConnections s)\<rparr>
                    else s)
          in (case use_serving_socket t use s1 exclusive0 available of
                None \<Rightarrow> Fatal
              | Some exclusive \<Rightarrow>
                  (case exclusive of
                     Some e \<Rightarrow> Break s1 \<lparr>mConnection = Some e, mReentrant = True\<rparr>
                   | None \<Rightarrow>
                       (case available of
                          Some a \<Rightarrow> Break (set_exclusiveTid a (Some t) s1)
                                      \<lparr>mConnection = Some a, mReentrant = False\<rparr>
                        | None \<Rightarrow>
                            if length (mOutgoingConnections s1) = 0 then ReturnWouldBlock s1
                            else CvWait s1))))"

text \<open>
  What a call of \<^verbatim>\<open>find\<close> comes to: it returns a status with the handle it filled
  in, it is still blocked on \<^verbatim>\<open>mAvailableConnectionCv\<close> when the schedule of the other
  threads ends, or the process aborted.
\<close>

datatype find_result =
    Returned status_t RpcSession ExclusiveConnection
  | Blocked RpcSession
  | Aborted

text \<open>
  The loop. Each element of \<open>env\<close> is what the other threads do to the session while
  this thread waits on the condition variable without the mutex (the identity for a
  spurious wake-up).
\<close>

fun find_loop ::
  "tid \<Rightarrow> ConnectionUse \<Rightarrow> (RpcSession \<Rightarrow> RpcSession) list \<Rightarrow> RpcSession \<Rightarrow> find_result" where
  "find_loop t use env s =
     (case find_body t use s of
        Fatal \<Rightarrow> Aborted
      | Break s' c \<Rightarrow> Returned OK (s'\<lparr>mWaitingThreads := mWaitingThreads s' - 1\<rparr>) c
      | ReturnWouldBlock s' \<Rightarrow>
          Returned WOULD_BLOCK s' \<lparr>mConnection = None, mReentrant = False\<rparr>
      | CvWait s' \<Rightarrow>
          (case env of
             [] \<Rightarrow> Blocked s'
           | e # env' \<Rightarrow> find_loop t use env' (e s')))"

text \<open>The session a pass through the loop body leaves behind.\<close>

definition step_session :: "find_step \<Rightarrow> RpcSession option" where
  "step_session r =
     (case r of Break s c \<Rightarrow> Some s | ReturnWouldBlock s \<Rightarrow> Some s | CvWait s \<Rightarrow> Some s
      | Fatal \<Rightarrow> None)"

text \<open>The session a call of \<^verbatim>\<open>find\<close> leaves behind.\<close>

definition result_session :: "find_result \<Rightarrow> RpcSession option" where
  "result_session r =
     (case r of Returned status s c \<Rightarrow> Some s | Blocked s \<Rightarrow> Some s | Aborted \<Rightarrow> None)"

definition ExclusiveConnection_find ::
  "tid \<Rightarrow> ConnectionUse \<Rightarrow> (RpcSession \<Rightarrow> RpcSession) list \<Rightarrow> RpcSession \<Rightarrow> find_result" where
  "ExclusiveConnection_find t use env s =
     find_loop t use env (s\<lparr>mWaitingThreads := mWaitingThreads s + 1\<rparr>)"

subsection \<open>The destructor of ExclusiveConnection\<close>

definition ExclusiveConnection_destroy :: "ExclusiveConnection \<Rightarrow> RpcSession \<Rightarrow> RpcSession" where
  "ExclusiveConnection_destroy c s =
     (case mConnection c of
        Some a \<Rightarrow>
          if \<not> mReentrant c then
            (let s1 = set_exclusiveTid a None s in
             if mWaitingThreads s1 > 0 then s1\<lparr>mNotifyOne := mNotifyOne s1 + 1\<rparr> else s1)
          else s
      | None \<Rightarrow> s)"

subsection \<open>RpcSession::transact\<close>

text \<open>
  \<open>oneway\<close> is \<^verbatim>\<open>flags & IBinder::FLAG_ONEWAY\<close>. \<open>rpc\<close> is the call into the wire
  codec (\<^verbatim>\<open>state()->transact\<close>) on the bound connection, made without the mutex: its
  status and what has become of the session when it returns. The handle is a local
  variable, so its destructor runs on every return.
\<close>

datatype transact_result =
    TReturned status_t RpcSession
  | TBlocked RpcSession
  | TAborted

definition transact ::
  "tid \<Rightarrow> bool \<Rightarrow> (RpcSession \<Rightarrow> RpcSession) list \<Rightarrow>
   (conn_ref option \<Rightarrow> RpcSession \<Rightarrow> status_t \<times> RpcSession) \<Rightarrow> RpcSession \<Rightarrow> transact_result" where
  "transact t oneway env rpc s =
     (case ExclusiveConnection_find t (if oneway then CLIENT_ASYNC else CLIENT) env s of
        Aborted \<Rightarrow> TAborted
      | Blocked s' \<Rightarrow> TBlocked s'
      | Returned status s' connection \<Rightarrow>
          if status \<noteq> OK then TReturned status (ExclusiveConnection_destroy connection s')
          else (case rpc (mConnection connection) s' of
                  (status', s'') \<Rightarrow>
                    TReturned status' (ExclusiveConnection_destroy connection s'')))"

subsection \<open>RpcSession::setProtocolVersion\<close>

text \<open>
  \<^verbatim>\<open>RPC_WIRE_PROTOCOL_VERSION_NEXT\<close> and \<^verbatim>\<open>RPC_WIRE_PROTOCOL_VERSION_EXPERIMENTAL\<close>
  are constants of the wire format, declared in \<^verbatim>\<open>RpcWireFormat.h\<close>: here they
  are the parameters \<open>version_next\<close> and \<open>version_experimental\<close>. Comparisons of
  \<^verbatim>\<open>uint32_t\<close> are unsigned, as those of \<open>32 word\<close> are.
\<close>

definition setProtocolVersion ::
  "32 word \<Rightarrow> 32 word \<Rightarrow> 32 word \<Rightarrow> RpcSession \<Rightarrow> bool \<times> RpcSession" where
  "setProtocolVersion version_next version_experimental version s =
     (if version \<ge> version_next \<and> version \<noteq> version_experimental then (False, s)
      else (case mProtocolVersion s of
              Some p \<Rightarrow>
                if version > p then (False, s)
                else (True, s\<lparr>mProtocolVersion := Some version\<rparr>)
            | None \<Rightarrow> (True, s\<lparr>mProtocolVersion := Some version\<rparr>)))"

subsection \<open>New connection objects\<close>

text \<open>
  \<^verbatim>\<open>sp<RpcConnection>::make()\<close> returns the next address of the store. The member
  initialiser of \<^verbatim>\<open>allowNested\<close> stands in the declaration of \<^verbatim>\<open>RpcConnection\<close>
  (\<^verbatim>\<open>RpcSession.h\<close>) and is left open here: the new object has the value the store
  holds at its address. Both callers assign \<^verbatim>\<open>rpcTransport\<close> and \<^verbatim>\<open>exclusiveTid\<close> at
  once.
\<close>

definition RpcConnection_make :: "RpcSession \<Rightarrow> conn_ref \<times> RpcSession" where
  "RpcConnection_make s = (mNextConn s, s\<lparr>mNextConn := mNextConn s + 1\<rparr>)"

definition init_connection :: "conn_ref \<Rightarrow> transport \<Rightarrow> tid \<Rightarrow> RpcSession \<Rightarrow> RpcSession" where
  "init_connection c tr t s =
     s\<lparr>mStore := (mStore s)(c := (mStore s c)\<lparr>rpcTransport := Some tr, exclusiveTid := Some t\<rparr>)\<rparr>"

subsection \<open>RpcSession::assignIncomingConnectionToThisThread\<close>

definition assignIncomingConnectionToThisThread ::
  "tid \<Rightarrow> transport \<Rightarrow> RpcSession \<Rightarrow> conn_ref option \<times> RpcSession" where
  "assignIncomingConnectionToThisThread t tr s =
     (if length (mIncomingConnections s) \<ge> mMaxThreads s then (None, s)
      else if length (mIncomingConnections s) < mMaxIncomingConnections s then (None, s)
      else
        (case RpcConnection_make s of
           (session, s0) \<Rightarrow>
             let s1 = init_connection session tr t s0;
                 s2 = s1\<lparr>mIncomingConnections := mIncomingConnections s1 @ [session]\<rparr>;
                 s3 = s2\<lparr>mMaxIncomingConnections := length (mIncomingConnections s2)\<rparr>
             in (Some session, s3)))"

subsection \<open>RpcSession::addOutgoingConnection\<close>

text \<open>
  Between its two critical sections the function calls \<^verbatim>\<open>mState->sendConnectionInit\<close>
  without the mutex: \<open>sendConnectionInit\<close> is what that call and the other threads
  have made of the session when the second critical section starts.
\<close>

text \<open>The first critical section: the new object, owned by the adding thread, is pushed
  onto the outgoing pool.\<close>

definition addOutgoingConnection_push ::
  "tid \<Rightarrow> transport \<Rightarrow> RpcSession \<Rightarrow> conn_ref \<times> RpcSession" where
  "addOutgoingConnection_push t tr s =
     (case RpcConnection_make s of
        (connection, s0) \<Rightarrow>
          let s1 = init_connection connection tr t s0
          in (connection, s1\<lparr>mOutgoingConnections := mOutgoingConnections s1 @ [connection]\<rparr>))"

definition addOutgoingConnection ::
  "tid \<Rightarrow> transport \<Rightarrow> bool \<Rightarrow> (conn_ref \<Rightarrow> RpcSession \<Rightarrow> RpcSession) \<Rightarrow> RpcSession \<Rightarrow>
   status_t \<times> RpcSession" where
  "addOutgoingConnection t tr init sendConnectionInit s =
     (case addOutgoingConnection_push t tr s of
        (connection, s2) \<Rightarrow>
          let s3 = (if init then sendConnectionInit connection s2 else s2);
              s4 = set_exclusiveTid connection None s3
          in (OK, s4))"

subsection \<open>RpcSession::setupOneSocketConnection: the connect loop\<close>

text \<open>The errno values of Linux that the loop compares with.\<close>

definition EAGAIN :: int where "EAGAIN = 11"
definition ECONNRESET :: int where "ECONNRESET = 104"
definition EINPROGRESS :: int where "EINPROGRESS = 115"


text \<open>
  What the operating system answers in one pass through the loop:
  \<^item> \<open>socket_ret\<close>: \<^verbatim>\<open>socket()\<close> failed with the errno \<open>Inl e\<close>, or returned the file
    descriptor \<open>Inr fd\<close>;
  \<^item> \<open>connect_errno\<close>: \<^verbatim>\<open>connect()\<close> returned 0 (\<open>None\<close>) or failed with an errno;
  \<^item> \<open>poll_status\<close>: the status of \<^verbatim>\<open>triggerablePoll\<close>;
  \<^item> \<open>getsockopt_ret\<close>: \<^verbatim>\<open>getsockopt(SO_ERROR)\<close> failed with the errno \<open>Inl e\<close>, or
    stored the value \<open>Inr v\<close> in \<^verbatim>\<open>connErrno\<close>.
  The last two are read only when the code reaches the call. The system calls are
  wrapped in \<^verbatim>\<open>TEMP_FAILURE_RETRY\<close>; the answers are those after its retries.
\<close>

record attempt =
  socket_ret :: "int + int"
  connect_errno :: "int option"
  poll_status :: status_t
  getsockopt_ret :: "int + int"

text \<open>The block that handles \<^verbatim>\<open>EAGAIN\<close> and \<^verbatim>\<open>EINPROGRESS\<close> of a non-blocking
  socket: it returns from the function, or leaves the connect error as if the socket
  were blocking.\<close>

datatype resolved = Return status_t | ConnErrno int

definition resolve_connErrno :: "attempt \<Rightarrow> int \<Rightarrow> resolved" where
  "resolve_connErrno a connErrno =
     (if connErrno = EAGAIN \<or> connErrno = EINPROGRESS then
        (if poll_status a \<noteq> OK then Return (poll_status a)
         else (case getsockopt_ret a of
                 Inl savedErrno \<Rightarrow> Return (- savedErrno)
               | Inr v \<Rightarrow> ConnErrno v))
      else ConnErrno connErrno)"

text \<open>
  One pass through the body of the loop: \<^verbatim>\<open>continue\<close>, or the loop is left with the
  status the function returns (\<open>Inl\<close>) or with the connected file descriptor that goes
  to \<^verbatim>\<open>initAndAddConnection\<close> (\<open>Inr\<close>).
\<close>

datatype pass = Continue | Leave "status_t + int"

definition connect_pass :: "attempt \<Rightarrow> pass" where
  "connect_pass a =
     (case socket_ret a of
        Inl savedErrno \<Rightarrow> Leave (Inl (- savedErrno))
      | Inr serverFd \<Rightarrow>
          (case connect_errno a of
             None \<Rightarrow> Leave (Inr serverFd)
           | Some errno \<Rightarrow>
               (case resolve_connErrno a errno of
                  Return status \<Rightarrow> Leave (Inl status)
                | ConnErrno connErrno \<Rightarrow>
                    if connErrno = ECONNRESET then Continue
                    else if connErrno \<noteq> 0 then Leave (Inl (- connErrno))
                    else Leave (Inr serverFd))))"


text \<open>Whether the pass reaches the call of \<^verbatim>\<open>connect()\<close>.\<close>

definition called_connect :: "attempt \<Rightarrow> bool" where
  "called_connect a = (case socket_ret a of Inl savedErrno \<Rightarrow> False | Inr serverFd \<Rightarrow> True)"

text \<open>
  What the loop comes to: its result; the number of passes entered; the number of
  calls of \<^verbatim>\<open>connect()\<close>; the arguments of the calls of \<^verbatim>\<open>usleep\<close>, in order.
\<close>

record connect_trace =
  ct_result :: "status_t + int"
  ct_tries :: nat
  ct_connects :: nat
  ct_usleeps :: "nat list"

function connect_loop ::
  "(nat \<Rightarrow> attempt) \<Rightarrow> nat \<Rightarrow> nat \<Rightarrow> nat list \<Rightarrow> connect_trace" where
  "connect_loop os tries connects usleeps =
     (if tries < 5 then
        (let usleeps1 = (if tries > 0 then usleeps @ [10000] else usleeps);
             connects1 = (if called_connect (os tries) then connects + 1 else connects)
         in case connect_pass (os tries) of
              Continue \<Rightarrow> connect_loop os (tries + 1) connects1 usleeps1
            | Leave r \<Rightarrow>
                \<lparr>ct_result = r, ct_tries = tries + 1,
                 ct_connects = connects1, ct_usleeps = usleeps1\<rparr>)
      else \<lparr>ct_result = Inl UNKNOWN_ERROR, ct_tries = tries,
            ct_connects = connects, ct_usleeps = usleeps\<rparr>)"
  by pat_completeness auto
termination
  by (relation "measure (\<lambda>(os, tries, connects, usleeps). 5 - tries)") auto

text \<open>The function: the loop, then \<^verbatim>\<open>initAndAddConnection\<close> on the connected socket.
  \<open>init_and_add\<close> stands for that call with its other arguments, and \<open>return\<close> for
  returning a status.\<close>

definition setupOneSocketConnection ::
  "(nat \<Rightarrow> attempt) \<Rightarrow> (int \<Rightarrow> 'a) \<Rightarrow> (status_t \<Rightarrow> 'a) \<Rightarrow> 'a" where
  "setupOneSocketConnection os init_and_add return =
     (case ct_result (connect_loop os 0 0 []) of
        Inl status \<Rightarrow> return status
      | Inr serverFd \<Rightarrow> init_and_add serverFd)"




subsection \<open>Incoming workers\<close>

text \<open>\<^verbatim>\<open>preJoinThreadOwnership\<close>: a thread registers its own handle; \<open>None\<close> is the
  abort \<^verbatim>\<open>Must own this thread\<close>.\<close>

definition preJoinThreadOwnership :: "tid \<Rightarrow> std_thread \<Rightarrow> RpcSession \<Rightarrow> RpcSession option" where
  "preJoinThreadOwnership t thread s =
     (case thread of
        Thread t' \<Rightarrow>
          if t' \<noteq> t then None
          else Some (s\<lparr>mThreads := AList.update t' thread (mThreads s)\<rparr>))"

record PreJoinSetupResult =
  setup_connection :: "conn_ref option"
  setup_status :: status_t

text \<open>\<open>readConnectionInit\<close> is the status of \<^verbatim>\<open>mState->readConnectionInit\<close>, a read
  from the transport.\<close>

definition preJoinSetup ::
  "tid \<Rightarrow> transport \<Rightarrow> status_t \<Rightarrow> RpcSession \<Rightarrow> PreJoinSetupResult \<times> RpcSession" where
  "preJoinSetup t tr readConnectionInit s =
     (case assignIncomingConnectionToThisThread t tr s of
        (None, s') \<Rightarrow> (\<lparr>setup_connection = None, setup_status = DEAD_OBJECT\<rparr>, s')
      | (Some c, s') \<Rightarrow> (\<lparr>setup_connection = Some c, setup_status = readConnectionInit\<rparr>, s'))"

text \<open>
  \<^verbatim>\<open>addIncomingConnection\<close> starts the thread \<open>worker\<close> and returns \<^verbatim>\<open>OK\<close> once the
  worker has registered itself and run \<^verbatim>\<open>preJoinSetup\<close>; the worker goes on to
  \<^verbatim>\<open>join\<close> with the setup result.
\<close>

definition addIncomingConnection ::
  "tid \<Rightarrow> transport \<Rightarrow> status_t \<Rightarrow> RpcSession \<Rightarrow>
   (status_t \<times> PreJoinSetupResult \<times> RpcSession) option" where
  "addIncomingConnection worker tr readConnectionInit s =
     (case preJoinThreadOwnership worker (Thread worker) s of
        None \<Rightarrow> None
      | Some s1 \<Rightarrow>
          (case preJoinSetup worker tr readConnectionInit s1 of
             (setupResult, s2) \<Rightarrow> Some (OK, setupResult, s2)))"

text \<open>The callbacks of the listener. Those of a server's listener are code of
  \<^verbatim>\<open>RpcServer\<close> and leave the members of the session alone.\<close>

definition onSessionAllIncomingThreadsEnded :: "RpcSession \<Rightarrow> RpcSession" where
  "onSessionAllIncomingThreadsEnded s =
     (case mEventListener s of
        ShutdownListener \<Rightarrow> s\<lparr>mShutdownListener := map_option (\<lambda>mShutdown. True) (mShutdownListener s)\<rparr>
      | ServerListener \<Rightarrow> s
      | NoListener \<Rightarrow> s)"

definition onSessionIncomingThreadEnded :: "RpcSession \<Rightarrow> RpcSession" where
  "onSessionIncomingThreadEnded s =
     (case mEventListener s of
        ShutdownListener \<Rightarrow> s\<lparr>mListenerNotifyAll := mListenerNotifyAll s + 1\<rparr>
      | ServerListener \<Rightarrow> s
      | NoListener \<Rightarrow> s)"

text \<open>
  \<^verbatim>\<open>removeIncomingConnection\<close>: the critical section, which tells whether the
  connection was in the pool, and the callback that follows it without the lock when
  the pool has become empty and there is a listener.
\<close>

definition removeIncomingConnection_locked :: "conn_ref \<Rightarrow> RpcSession \<Rightarrow> bool \<times> RpcSession" where
  "removeIncomingConnection_locked c s =
     (if c \<in> set (mIncomingConnections s) then
        (let s1 = s\<lparr>mIncomingConnections := remove1 c (mIncomingConnections s)\<rparr> in
         if length (mIncomingConnections s1) = 0 \<and> mEventListener s1 \<noteq> NoListener
         then (True, s1\<lparr>mPendingAllEnded := mPendingAllEnded s1 + 1\<rparr>)
         else (True, s1))
      else (False, s))"

definition removeIncomingConnection_callback :: "RpcSession \<Rightarrow> RpcSession" where
  "removeIncomingConnection_callback s =
     (if mPendingAllEnded s > 0
      then onSessionAllIncomingThreadsEnded (s\<lparr>mPendingAllEnded := mPendingAllEnded s - 1\<rparr>)
      else s)"

definition removeIncomingConnection :: "conn_ref \<Rightarrow> RpcSession \<Rightarrow> bool \<times> RpcSession" where
  "removeIncomingConnection c s =
     (case removeIncomingConnection_locked c s of
        (found, s1) \<Rightarrow>
          (found, if mPendingAllEnded s1 > mPendingAllEnded s
                  then removeIncomingConnection_callback s1 else s1))"

text \<open>
  \<^verbatim>\<open>join\<close> after its command loop, which runs on the transport until the wire codec
  returns an error: the worker erases its handle from \<^verbatim>\<open>mThreads\<close> (\<open>None\<close> is the
  abort when it is not there), removes its connection (\<open>None\<close> is the abort \<^verbatim>\<open>bad
  state\<close>), and tells the listener.
\<close>

definition join_erase_thread :: "tid \<Rightarrow> RpcSession \<Rightarrow> RpcSession option" where
  "join_erase_thread t s =
     (case map_of (mThreads s) t of
        None \<Rightarrow> None
      | Some thread \<Rightarrow> Some (s\<lparr>mThreads := AList.delete t (mThreads s)\<rparr>))"

definition RpcSession_join_exit :: "tid \<Rightarrow> conn_ref option \<Rightarrow> RpcSession \<Rightarrow> RpcSession option" where
  "RpcSession_join_exit t connection s =
     (case join_erase_thread t s of
        None \<Rightarrow> None
      | Some s1 \<Rightarrow>
          (case connection of
             None \<Rightarrow> Some (onSessionIncomingThreadEnded s1)
           | Some c \<Rightarrow>
               (case removeIncomingConnection c s1 of
                  (False, s2) \<Rightarrow> None
                | (True, s2) \<Rightarrow> Some (onSessionIncomingThreadEnded s2))))"

subsection \<open>RpcSession::setupClient\<close>

text \<open>
  What the outside answers during the \<open>k\<close>-th call of \<^verbatim>\<open>connectAndInit\<close>: the
  transport \<^verbatim>\<open>mCtx->newTransport\<close> makes (\<open>None\<close> for a null pointer), the status of
  writing the connection header, and for an incoming connection the thread that is
  started and the status of its \<^verbatim>\<open>readConnectionInit\<close>.
\<close>

record conn_env =
  newTransport :: "transport option"
  sendHeaderStatus :: status_t
  worker :: tid
  readConnectionInit :: status_t

text \<open>\<open>None\<close> is an abort. The header written to the transport is no part of the
  session. The session is not in use by other threads while an outgoing connection is
  added.\<close>

definition initAndAddConnection ::
  "tid \<Rightarrow> conn_env \<Rightarrow> int \<Rightarrow> bool \<Rightarrow> RpcSession \<Rightarrow> (status_t \<times> RpcSession) option" where
  "initAndAddConnection t e fd incoming s =
     (if mShutdownTrigger s = None then None
      else (case newTransport e of
              None \<Rightarrow> Some (UNKNOWN_ERROR, s)
            | Some server \<Rightarrow>
                if sendHeaderStatus e \<noteq> OK then Some (sendHeaderStatus e, s)
                else if incoming then
                  (case addIncomingConnection (worker e) server (readConnectionInit e) s of
                     None \<Rightarrow> None
                   | Some (status, setupResult, s') \<Rightarrow> Some (status, s'))
                else Some (addOutgoingConnection t server True (\<lambda>c x. x) s)))"

definition initShutdownTrigger :: "bool \<Rightarrow> RpcSession \<Rightarrow> status_t \<times> RpcSession" where
  "initShutdownTrigger made s =
     (if mShutdownTrigger s = None then
        (let s1 = s\<lparr>mShutdownTrigger := (if made then Some False else None),
                    mShutdownListener := Some False, mEventListener := ShutdownListener\<rparr>
         in if mShutdownTrigger s1 = None then (INVALID_OPERATION, s1) else (OK, s1))
      else (OK, s))"

text \<open>
  The environment of a client setup:
  \<^item> \<open>trigger_made\<close>: \<^verbatim>\<open>FdTrigger::make()\<close> returns a trigger;
  \<^item> \<open>connect k\<close>: how the \<open>k\<close>-th call of \<^verbatim>\<open>connectAndInit\<close> gets its socket: a status
    to return, or a connected file descriptor for \<^verbatim>\<open>initAndAddConnection\<close>;
  \<^item> \<open>conn k\<close>: the answers to \<^verbatim>\<open>initAndAddConnection\<close> in that call;
  \<^item> \<open>newSessionResponse\<close>, \<open>remoteMaxThreads\<close>, \<open>sessionId\<close>: status and value of
    \<^verbatim>\<open>readNewSessionResponse\<close>, \<^verbatim>\<open>getMaxThreads\<close> and \<^verbatim>\<open>getSessionId\<close> of the wire
    codec;
  \<^item> \<open>exits i\<close>: the workers, each with the connection it serves, that run the end of
    \<^verbatim>\<open>join\<close> after the \<open>i\<close>-th incoming connection has been added and before the setup
    thread goes on.
\<close>

record setup_env =
  trigger_made :: bool
  connect :: "nat \<Rightarrow> status_t + int"
  conn :: "nat \<Rightarrow> conn_env"
  newSessionResponse :: "status_t \<times> 32 word"
  remoteMaxThreads :: "status_t \<times> nat"
  sessionId :: status_t
  exits :: "nat \<Rightarrow> (tid \<times> conn_ref option) list"

datatype 'a call = Ret 'a RpcSession | Block | Abort

definition connectAndInit ::
  "tid \<Rightarrow> setup_env \<Rightarrow> nat \<Rightarrow> bool \<Rightarrow> RpcSession \<Rightarrow> status_t call" where
  "connectAndInit t env k incoming s =
     (case connect env k of
        Inl status \<Rightarrow> Ret status s
      | Inr fd \<Rightarrow>
          (case initAndAddConnection t (conn env k) fd incoming s of
             None \<Rightarrow> Abort
           | Some (status, s') \<Rightarrow> Ret status s'))"

text \<open>The block of \<^verbatim>\<open>setupClient\<close> that reads the new-session response.\<close>

definition readNewSession ::
  "32 word \<Rightarrow> 32 word \<Rightarrow> tid \<Rightarrow> setup_env \<Rightarrow> RpcSession \<Rightarrow> status_t call" where
  "readNewSession version_next version_experimental t env s =
     (case ExclusiveConnection_find t CLIENT [] s of
        Aborted \<Rightarrow> Abort
      | Blocked s1 \<Rightarrow> Block
      | Returned status s1 connection \<Rightarrow>
          if status \<noteq> OK then Ret status (ExclusiveConnection_destroy connection s1)
          else if fst (newSessionResponse env) \<noteq> OK
          then Ret (fst (newSessionResponse env)) (ExclusiveConnection_destroy connection s1)
          else (case setProtocolVersion version_next version_experimental
                       (snd (newSessionResponse env)) s1 of
                  (False, s2) \<Rightarrow> Ret BAD_VALUE (ExclusiveConnection_destroy connection s2)
                | (True, s2) \<Rightarrow> Ret OK (ExclusiveConnection_destroy connection s2)))"

definition getRemoteMaxThreads :: "tid \<Rightarrow> setup_env \<Rightarrow> RpcSession \<Rightarrow> (status_t \<times> nat) call" where
  "getRemoteMaxThreads t env s =
     (case ExclusiveConnection_find t CLIENT [] s of
        Aborted \<Rightarrow> Abort
      | Blocked s1 \<Rightarrow> Block
      | Returned status s1 connection \<Rightarrow>
          if status \<noteq> OK then Ret (status, 0) (ExclusiveConnection_destroy connection s1)
          else Ret (remoteMaxThreads env) (ExclusiveConnection_destroy connection s1))"

definition readId :: "tid \<Rightarrow> setup_env \<Rightarrow> RpcSession \<Rightarrow> status_t call" where
  "readId t env s =
     (if mForServer s then Abort
      else (case ExclusiveConnection_find t CLIENT [] s of
              Aborted \<Rightarrow> Abort
            | Blocked s1 \<Rightarrow> Block
            | Returned status s1 connection \<Rightarrow>
                if status \<noteq> OK then Ret status (ExclusiveConnection_destroy connection s1)
                else Ret (sessionId env) (ExclusiveConnection_destroy connection s1)))"

text \<open>The workers that leave: each runs the end of \<^verbatim>\<open>join\<close>.\<close>

fun workers_exit :: "(tid \<times> conn_ref option) list \<Rightarrow> RpcSession \<Rightarrow> RpcSession option" where
  "workers_exit [] s = Some s"
| "workers_exit ((w, c) # ws) s =
     (case RpcSession_join_exit w c s of None \<Rightarrow> None | Some s' \<Rightarrow> workers_exit ws s')"

text \<open>
  The two loops. \<open>k\<close> counts the calls of \<^verbatim>\<open>connectAndInit\<close>. The first loop runs
  while \<^verbatim>\<open>i + 1 < numThreadsAvailable\<close>; the second while \<^verbatim>\<open>i < mMaxThreads\<close>, and it is
  given \<open>n\<close> passes of fuel, of which \<^verbatim>\<open>setupClient\<close> hands it \<^verbatim>\<open>mMaxThreads\<close>: no pass
  changes \<^verbatim>\<open>mMaxThreads\<close>, so the fuel never runs out first (\<open>incoming_loop_fuel\<close>
  below). The first loop makes \<open>numThreadsAvailable - 1\<close> passes, none when
  \<open>numThreadsAvailable\<close> is 0. When it has returned \<^verbatim>\<open>OK\<close>, \<^verbatim>\<open>connectAndInit\<close> has been
  called once for the seed connection and once in each of these passes, so the
  second loop starts with call \<open>1 + (numThreadsAvailable - 1)\<close>.
\<close>

fun outgoing_loop ::
  "tid \<Rightarrow> setup_env \<Rightarrow> nat \<Rightarrow> nat \<Rightarrow> RpcSession \<Rightarrow> status_t call" where
  "outgoing_loop t env k 0 s = Ret OK s"
| "outgoing_loop t env k (Suc n) s =
     (case connectAndInit t env k False s of
        Abort \<Rightarrow> Abort
      | Block \<Rightarrow> Block
      | Ret status s' \<Rightarrow>
          if status \<noteq> OK then Ret status s' else outgoing_loop t env (k + 1) n s')"

fun incoming_loop ::
  "tid \<Rightarrow> setup_env \<Rightarrow> nat \<Rightarrow> nat \<Rightarrow> nat \<Rightarrow> RpcSession \<Rightarrow> status_t call" where
  "incoming_loop t env k i 0 s = (if i < mMaxThreads s then Block else Ret OK s)"
| "incoming_loop t env k i (Suc n) s =
     (if i < mMaxThreads s then
        (case connectAndInit t env k True s of
           Abort \<Rightarrow> Abort
         | Block \<Rightarrow> Block
         | Ret status s' \<Rightarrow>
             if status \<noteq> OK then Ret status s'
             else (case workers_exit (exits env i) s' of
                     None \<Rightarrow> Abort
                   | Some s'' \<Rightarrow> incoming_loop t env (k + 1) (i + 1) n s''))
      else Ret OK s)"

definition setupClient ::
  "32 word \<Rightarrow> 32 word \<Rightarrow> tid \<Rightarrow> setup_env \<Rightarrow> RpcSession \<Rightarrow> status_t call" where
  "setupClient version_next version_experimental t env s =
     (if length (mOutgoingConnections s) \<noteq> 0 then Abort
      else (case initShutdownTrigger (trigger_made env) s of
        (status0, s0) \<Rightarrow>
          if status0 \<noteq> OK then Ret status0 s0
          else (case connectAndInit t env 0 False s0 of
            Abort \<Rightarrow> Abort
          | Block \<Rightarrow> Block
          | Ret status1 s1 \<Rightarrow>
              if status1 \<noteq> OK then Ret status1 s1
              else (case readNewSession version_next version_experimental t env s1 of
                Abort \<Rightarrow> Abort
              | Block \<Rightarrow> Block
              | Ret status2 s2 \<Rightarrow>
                  if status2 \<noteq> OK then Ret status2 s2
                  else (case getRemoteMaxThreads t env s2 of
                    Abort \<Rightarrow> Abort
                  | Block \<Rightarrow> Block
                  | Ret (status3, numThreadsAvailable) s3 \<Rightarrow>
                      if status3 \<noteq> OK then Ret status3 s3
                      else (case readId t env s3 of
                        Abort \<Rightarrow> Abort
                      | Block \<Rightarrow> Block
                      | Ret status4 s4 \<Rightarrow>
                          if status4 \<noteq> OK then Ret status4 s4
                          else (case outgoing_loop t env 1 (numThreadsAvailable - 1) s4 of
                            Abort \<Rightarrow> Abort
                          | Block \<Rightarrow> Block
                          | Ret status5 s5 \<Rightarrow>
                              if status5 \<noteq> OK then Ret status5 s5
                              else incoming_loop t env (1 + (numThreadsAvailable - 1)) 0
                                     (mMaxThreads s5) s5)))))))"

subsection \<open>RpcSession::shutdownAndWait\<close>

text \<open>
  What the other threads can do to the session while a thread waits for the shutdown,
  one critical section (or one call made without the lock) each:
  \<^item> the wait times out;
  \<^item> a new worker registers its handle (\<^verbatim>\<open>preJoinThreadOwnership\<close>);
  \<^item> a worker asks for its connection to be admitted
    (\<^verbatim>\<open>assignIncomingConnectionToThisThread\<close>);
  \<^item> a worker that leaves erases its handle, removes its connection, makes the call
    of \<^verbatim>\<open>onSessionAllIncomingThreadsEnded\<close> it owes, calls
    \<^verbatim>\<open>onSessionIncomingThreadEnded\<close>;
  \<^item> a thread acquires a connection without being made to wait, or releases one.
  \<open>None\<close> is an abort of the process.
\<close>

datatype event =
    EvTimeout
  | EvThreadOwnership tid
  | EvAssignIncoming tid transport
  | EvEraseThread tid
  | EvRemoveIncoming conn_ref
  | EvAllIncomingThreadsEnded
  | EvIncomingThreadEnded
  | EvAcquire tid ConnectionUse
  | EvRelease ExclusiveConnection

fun apply_event :: "event \<Rightarrow> RpcSession \<Rightarrow> RpcSession option" where
  "apply_event EvTimeout s = Some s"
| "apply_event (EvThreadOwnership t) s = preJoinThreadOwnership t (Thread t) s"
| "apply_event (EvAssignIncoming t tr) s = Some (snd (assignIncomingConnectionToThisThread t tr s))"
| "apply_event (EvEraseThread t) s = join_erase_thread t s"
| "apply_event (EvRemoveIncoming c) s =
     (case removeIncomingConnection_locked c s of
        (False, s') \<Rightarrow> None
      | (True, s') \<Rightarrow> Some s')"
| "apply_event EvAllIncomingThreadsEnded s = Some (removeIncomingConnection_callback s)"
| "apply_event EvIncomingThreadEnded s = Some (onSessionIncomingThreadEnded s)"
| "apply_event (EvAcquire t use) s =
     (case ExclusiveConnection_find t use [] s of
        Aborted \<Rightarrow> None
      | Blocked s' \<Rightarrow> Some s'
      | Returned status s' connection \<Rightarrow> Some s')"
| "apply_event (EvRelease connection) s = Some (ExclusiveConnection_destroy connection s)"

fun apply_events :: "event list \<Rightarrow> RpcSession \<Rightarrow> RpcSession option" where
  "apply_events [] s = Some s"
| "apply_events (e # es) s =
     (case apply_event e s of None \<Rightarrow> None | Some s' \<Rightarrow> apply_events es s')"

text \<open>
  \<^verbatim>\<open>WaitForShutdownListener::waitForShutdown\<close>: \<^verbatim>\<open>while (!mShutdown)\<close> a wait on the
  condition variable, during which the lock is given up. Each element of \<open>env\<close> is
  what happens during one wait. When \<open>env\<close> ends with \<^verbatim>\<open>mShutdown\<close> still false, the
  thread is still waiting.
\<close>

datatype wait_result = Woken RpcSession | StillWaiting | ProcessAborted

fun waitForShutdown :: "event list list \<Rightarrow> RpcSession \<Rightarrow> wait_result" where
  "waitForShutdown [] s =
     (if mShutdownListener s = Some True then Woken s else StillWaiting)"
| "waitForShutdown (es # env) s =
     (if mShutdownListener s = Some True then Woken s
      else (case apply_events es s of
              None \<Rightarrow> ProcessAborted
            | Some s' \<Rightarrow> waitForShutdown env s'))"

text \<open>
  The session returned is the one at \<^verbatim>\<open>_l.unlock()\<close>, the last time the function
  holds the mutex; \<^verbatim>\<open>mState->clear()\<close> after it belongs to the wire codec.
\<close>

datatype shutdown_result = ShReturned bool RpcSession | ShWaiting | ShAborted

definition shutdownAndWait :: "bool \<Rightarrow> event list list \<Rightarrow> RpcSession \<Rightarrow> shutdown_result" where
  "shutdownAndWait wait env s =
     (case mShutdownTrigger s of
        None \<Rightarrow> ShAborted
      | Some fired \<Rightarrow>
          (let s1 = s\<lparr>mShutdownTrigger := Some True\<rparr> in
           if wait then
             (case mShutdownListener s1 of
                None \<Rightarrow> ShAborted
              | Some mShutdown \<Rightarrow>
                  (case waitForShutdown env s1 of
                     StillWaiting \<Rightarrow> ShWaiting
                   | ProcessAborted \<Rightarrow> ShAborted
                   | Woken s2 \<Rightarrow>
                       if mThreads s2 \<noteq> [] then ShAborted else ShReturned True s2))
           else ShReturned True s1))"

text \<open>
  What holds of the incoming pool in every session: it is no larger than its
  high-water mark, and once it has been emptied by a worker that left (the listener
  has been told, or is about to be) it is empty and its high-water mark is not 0, so
  that \<^verbatim>\<open>assignIncomingConnectionToThisThread\<close> admits nothing any more.
\<close>

definition drained :: "RpcSession \<Rightarrow> bool" where
  "drained s \<longleftrightarrow> mShutdownListener s = Some True \<or> mPendingAllEnded s > 0"

definition shutdown_inv :: "RpcSession \<Rightarrow> bool" where
  "shutdown_inv s \<longleftrightarrow>
     length (mIncomingConnections s) \<le> mMaxIncomingConnections s \<and>
     (if drained s then mIncomingConnections s = [] \<and> mMaxIncomingConnections s > 0 else True)"

subsection \<open>The members that acquiring and releasing leave alone\<close>

definition pools ::
  "RpcSession \<Rightarrow> conn_ref list \<times> conn_ref list \<times> nat \<times> nat \<times> (tid \<times> std_thread) list \<times>
     bool option \<times> bool option \<times> EventListener \<times> nat \<times> bool \<times> conn_ref" where
  "pools s =
     (mOutgoingConnections s, mIncomingConnections s, mMaxIncomingConnections s,
      mMaxThreads s, mThreads s, mShutdownTrigger s, mShutdownListener s,
      mEventListener s, mPendingAllEnded s, mForServer s, mNextConn s)"

subsection \<open>A session as constructed\<close>

text \<open>The session right after its constructor: no connection, no thread, no trigger.\<close>

definition new_connection :: RpcConnection where
  "new_connection = \<lparr>rpcTransport = None, exclusiveTid = None, allowNested = False\<rparr>"

definition new_session :: RpcSession where
  "new_session =
     \<lparr>mStore = (\<lambda>c. new_connection), mNextConn = 0,
      mOutgoingConnections = [], mOutgoingConnectionsOffset = 0,
      mIncomingConnections = [], mMaxIncomingConnections = 0,
      mMaxThreads = 0, mWaitingThreads = 0, mProtocolVersion = None,
      mThreads = [], mShutdownTrigger = None, mShutdownListener = None,
      mEventListener = NoListener, mForServer = False, mNotifyOne = 0,
      mListenerNotifyAll = 0, mPendingAllEnded = 0\<rparr>"

text \<open>A server-side session: one incoming connection, served by thread 3, and no
  outgoing connection.\<close>

definition server_session :: RpcSession where
  "server_session =
     new_session
       \<lparr>mStore := (\<lambda>c. new_connection)
          (0 := \<lparr>rpcTransport = Some 50, exclusiveTid = Some 3, allowNested = True\<rparr>),
        mNextConn := 1, mIncomingConnections := [0], mMaxIncomingConnections := 1,
        mMaxThreads := 1, mThreads := [(3, Thread 3)],
        mShutdownTrigger := Some False, mEventListener := ServerListener,
        mForServer := True\<rparr>"

text \<open>A client-side session after setup: three outgoing connections, all free.\<close>

definition client_session :: RpcSession where
  "client_session =
     new_session
       \<lparr>mStore := (\<lambda>c. new_connection\<lparr>rpcTransport := Some (100 + c)\<rparr>),
        mNextConn := 3, mOutgoingConnections := [0, 1, 2],
        mShutdownTrigger := Some False, mShutdownListener := Some False,
        mEventListener := ShutdownListener\<rparr>"

text \<open>
  Environments of a client setup. In \<open>good_env n\<close> every call succeeds, the remote
  side reports \<open>n\<close> threads, the \<open>k\<close>-th call of \<^verbatim>\<open>connectAndInit\<close> starts thread
  \<open>20 + k\<close> if it adds an incoming connection, and no worker leaves. In
  \<open>leaving_env\<close> the remote side reports one thread and the first worker (thread 21,
  serving connection 1) leaves as soon as its connection has been added, as it does
  when the peer closes that connection.
\<close>

definition good_conn :: "tid \<Rightarrow> conn_env" where
  "good_conn w =
     \<lparr>newTransport = Some (100 + w), sendHeaderStatus = OK, worker = w,
      readConnectionInit = OK\<rparr>"

definition good_env :: "nat \<Rightarrow> setup_env" where
  "good_env n =
     \<lparr>trigger_made = True, connect = (\<lambda>k. Inr (int k + 3)),
      conn = (\<lambda>k. good_conn (20 + k)), newSessionResponse = (OK, 0),
      remoteMaxThreads = (OK, n), sessionId = OK, exits = (\<lambda>i. [])\<rparr>"

definition leaving_env :: setup_env where
  "leaving_env = (good_env 1)\<lparr>exits := (\<lambda>i. if i = 0 then [(21, Some 1)] else [])\<rparr>"

text \<open>
  While a thread waits for the shutdown of a session with the single worker 21 on
  connection 1: a time-out, then the worker erases its handle, removes its
  connection, and calls the listener.
\<close>

definition shutdown_env :: "event list list" where
  "shutdown_env =
     [[EvTimeout], [EvEraseThread 21], [EvRemoveIncoming 1],
      [EvAllIncomingThreadsEnded, EvIncomingThreadEnded]]"

section \<open>Properties\<close>

subsection \<open>Scanning a pool\<close>

lemma loop_avail_set:
  "\<forall>c \<in> set sockets. exclusiveTid (st c) = None \<Longrightarrow> sockets \<noteq> [] \<Longrightarrow>
   findConnection_loop t st sockets hint is ex (Some (Some a)) = (ex, Some (Some a))"
  by (induction "is") (simp_all add: Let_def)

lemma loop_all_free:
  assumes "\<forall>c \<in> set sockets. exclusiveTid (st c) = None" "sockets \<noteq> []" "hint < length sockets"
  shows "findConnection_loop t st sockets hint [0..<length sockets] None (Some None)
         = (None, Some (Some (sockets ! hint)))"
proof -
  have "[0..<length sockets] = 0 # [1..<length sockets]"
    using assms(2) by (simp add: upt_conv_Cons)
  then show ?thesis using assms loop_avail_set[OF assms(1,2)]
    by (simp add: Let_def)
qed

lemma loop_none_owned:
  "\<forall>c \<in> set sockets. exclusiveTid (st c) \<noteq> Some t \<Longrightarrow> sockets \<noteq> [] \<Longrightarrow>
   findConnection_loop t st sockets hint is None None = (None, None)"
  by (induction "is") (simp_all add: Let_def)

lemma scan_outgoing_empty:
  "mOutgoingConnections s = [] \<Longrightarrow> scan_outgoing t s = Some (None, None)"
  by (simp add: scan_outgoing_def findConnection_def sp_value_def)

lemma incoming_none_owned:
  "\<forall>c \<in> set (mIncomingConnections s). exclusiveTid (mStore s c) \<noteq> Some t \<Longrightarrow>
   use_serving_socket t use s ex av = Some ex"
  by (cases "mIncomingConnections s = []")
     (simp_all add: use_serving_socket_def findConnection_def loop_none_owned)

lemma use_serving_socket_waiting [simp]:
  "use_serving_socket t use (s\<lparr>mWaitingThreads := n\<rparr>) ex av = use_serving_socket t use s ex av"
  by (simp add: use_serving_socket_def split: option.split prod.split)

lemma find_body_would_block:
  assumes "mOutgoingConnections s = []" "use_serving_socket t use s None None = Some None"
  shows "find_body t use s = ReturnWouldBlock s"
  using assms by (simp add: find_body_def scan_outgoing_empty)

subsection \<open>Acquisition with an empty outgoing pool\<close>

text \<open>
  Claim C1. When the outgoing pool is empty and the choice step of \<^verbatim>\<open>find\<close> has no
  exclusive candidate, \<^verbatim>\<open>find\<close> returns \<^verbatim>\<open>WOULD_BLOCK\<close> at once: whatever the other
  threads would do (\<open>env\<close>), none of it is waited for, and the session is the one at
  entry with the waiter count raised. In particular, when no incoming connection is
  owned by the calling thread, \<^verbatim>\<open>transact\<close> (one-way or not) returns \<^verbatim>\<open>WOULD_BLOCK\<close>
  without reaching the wire codec.
\<close>

theorem find_would_block:
  assumes "mOutgoingConnections s = []"
  shows "(use_serving_socket t use s None None = Some None \<longrightarrow>
            (\<forall>env. ExclusiveConnection_find t use env s =
               Returned WOULD_BLOCK (s\<lparr>mWaitingThreads := mWaitingThreads s + 1\<rparr>)
                 \<lparr>mConnection = None, mReentrant = False\<rparr>)) \<and>
         ((\<forall>c \<in> set (mIncomingConnections s). exclusiveTid (mStore s c) \<noteq> Some t) \<longrightarrow>
            (\<forall>env rpc oneway. transact t oneway env rpc s =
               TReturned WOULD_BLOCK (s\<lparr>mWaitingThreads := mWaitingThreads s + 1\<rparr>)))"
proof (intro conjI impI allI)
  fix env
  assume u: "use_serving_socket t use s None None = Some None"
  let ?s = "s\<lparr>mWaitingThreads := mWaitingThreads s + 1\<rparr>"
  have "use_serving_socket t use ?s None None = Some None"
    using u by simp
  then have "find_body t use ?s = ReturnWouldBlock ?s"
    using assms by (intro find_body_would_block) simp_all
  then show "ExclusiveConnection_find t use env s =
      Returned WOULD_BLOCK ?s \<lparr>mConnection = None, mReentrant = False\<rparr>"
    by (simp add: ExclusiveConnection_find_def)
next
  fix env rpc oneway
  assume n: "\<forall>c \<in> set (mIncomingConnections s). exclusiveTid (mStore s c) \<noteq> Some t"
  let ?s = "s\<lparr>mWaitingThreads := mWaitingThreads s + 1\<rparr>"
  let ?use = "if oneway then CLIENT_ASYNC else CLIENT"
  have "use_serving_socket t ?use ?s None None = Some None"
    using n by (intro incoming_none_owned) simp
  then have "find_body t ?use ?s = ReturnWouldBlock ?s"
    using assms by (intro find_body_would_block) simp_all
  then have "ExclusiveConnection_find t ?use env s =
      Returned WOULD_BLOCK ?s \<lparr>mConnection = None, mReentrant = False\<rparr>"
    by (simp add: ExclusiveConnection_find_def)
  then show "transact t oneway env rpc s = TReturned WOULD_BLOCK ?s"
    by (simp add: transact_def ExclusiveConnection_destroy_def status_defs)
qed

text \<open>The server-side session, called from thread 7, which serves no connection.\<close>

theorem find_would_block_witness:
  "mOutgoingConnections server_session = [] \<and>
   use_serving_socket 7 CLIENT server_session None None = Some None \<and>
   ExclusiveConnection_find 7 CLIENT [] server_session =
     Returned WOULD_BLOCK
       (server_session\<lparr>mWaitingThreads := mWaitingThreads server_session + 1\<rparr>)
       \<lparr>mConnection = None, mReentrant = False\<rparr> \<and>
   transact 7 False [] (\<lambda>c s. (OK, s)) server_session =
     TReturned WOULD_BLOCK
       (server_session\<lparr>mWaitingThreads := mWaitingThreads server_session + 1\<rparr>)"
proof -
  have a: "mOutgoingConnections server_session = []"
    by (simp add: server_session_def new_session_def)
  have c: "\<forall>c \<in> set (mIncomingConnections server_session).
             exclusiveTid (mStore server_session c) \<noteq> Some 7"
    by (simp add: server_session_def new_session_def)
  have b: "use_serving_socket 7 CLIENT server_session None None = Some None"
    using c by (rule incoming_none_owned)
  show ?thesis using find_would_block[OF a, of 7 CLIENT] a b c by blast
qed

subsection \<open>The waiter count across a call of find\<close>

text \<open>
  Claim C2 does not hold on the path that returns \<^verbatim>\<open>WOULD_BLOCK\<close>: the early
  \<^verbatim>\<open>return\<close> inside the loop skips \<^verbatim>\<open>mWaitingThreads--\<close>. On a session as
  constructed, whose count is 0, the call returns \<^verbatim>\<open>WOULD_BLOCK\<close> and leaves it at 1.
\<close>

theorem find_leaks_waiting_thread:
  "mWaitingThreads new_session = 0 \<and>
   (\<exists>s' c. ExclusiveConnection_find 7 CLIENT [] new_session = Returned WOULD_BLOCK s' c \<and>
      mWaitingThreads s' = 1)"
  by (simp add: ExclusiveConnection_find_def find_body_def scan_outgoing_def findConnection_def
      sp_value_def use_serving_socket_def new_session_def)

subsection \<open>The rotating cursor of the outgoing pool\<close>

lemma scan_outgoing_waiting [simp]:
  "scan_outgoing t (s\<lparr>mWaitingThreads := n\<rparr>) = scan_outgoing t s"
  by (simp add: scan_outgoing_def)

lemma use_serving_socket_offset [simp]:
  "use_serving_socket t use (s\<lparr>mOutgoingConnectionsOffset := n\<rparr>) ex av = use_serving_socket t use s ex av"
  by (simp add: use_serving_socket_def split: option.split prod.split)

lemma use_serving_socket_async [simp]:
  "use_serving_socket t CLIENT_ASYNC s ex av = Some ex"
  by (simp add: use_serving_socket_def)

lemma find_body_offset:
  assumes "scan_outgoing t s = Some (ex, av)" "find_body t use s \<noteq> Fatal"
  shows "\<exists>s'. step_session (find_body t use s) = Some s' \<and>
     mOutgoingConnectionsOffset s' =
       (if use = CLIENT_ASYNC \<and> (ex \<noteq> None \<or> av \<noteq> None)
        then (mOutgoingConnectionsOffset s + 1) mod length (mOutgoingConnections s)
        else mOutgoingConnectionsOffset s)"
proof -
  define s1 where "s1 =
    (if use = CLIENT_ASYNC \<and> (ex \<noteq> None \<or> av \<noteq> None)
     then s\<lparr>mOutgoingConnectionsOffset :=
              (mOutgoingConnectionsOffset s + 1) mod length (mOutgoingConnections s)\<rparr>
     else s)"
  have o1: "mOutgoingConnectionsOffset s1 =
       (if use = CLIENT_ASYNC \<and> (ex \<noteq> None \<or> av \<noteq> None)
        then (mOutgoingConnectionsOffset s + 1) mod length (mOutgoingConnections s)
        else mOutgoingConnectionsOffset s)"
    by (auto simp add: s1_def)
  have fb: "find_body t use s =
     (case use_serving_socket t use s1 ex av of
        None \<Rightarrow> Fatal
      | Some exclusive \<Rightarrow>
          (case exclusive of
             Some e \<Rightarrow> Break s1 \<lparr>mConnection = Some e, mReentrant = True\<rparr>
           | None \<Rightarrow>
               (case av of
                  Some a \<Rightarrow> Break (set_exclusiveTid a (Some t) s1)
                              \<lparr>mConnection = Some a, mReentrant = False\<rparr>
                | None \<Rightarrow>
                    if length (mOutgoingConnections s1) = 0 then ReturnWouldBlock s1
                    else CvWait s1)))"
    by (simp only: find_body_def assms(1) option.case prod.case Let_def s1_def)
  from assms(2) fb obtain r where r: "use_serving_socket t use s1 ex av = Some r"
    by (cases "use_serving_socket t use s1 ex av") auto
  have "\<exists>s'. step_session (find_body t use s) = Some s' \<and>
          mOutgoingConnectionsOffset s' = mOutgoingConnectionsOffset s1"
    unfolding fb r
    by (cases r; cases av) (simp_all add: step_session_def set_exclusiveTid_def)
  then show ?thesis unfolding o1 .
qed

lemma find_offset:
  assumes "scan_outgoing t s = Some (ex, av)" "ExclusiveConnection_find t use [] s \<noteq> Aborted"
  shows "\<exists>s'. result_session (ExclusiveConnection_find t use [] s) = Some s' \<and>
     mOutgoingConnectionsOffset s' =
       (if use = CLIENT_ASYNC \<and> (ex \<noteq> None \<or> av \<noteq> None)
        then (mOutgoingConnectionsOffset s + 1) mod length (mOutgoingConnections s)
        else mOutgoingConnectionsOffset s)"
proof -
  define s0 where "s0 = s\<lparr>mWaitingThreads := mWaitingThreads s + 1\<rparr>"
  have sc: "scan_outgoing t s0 = Some (ex, av)" using assms(1) by (simp add: s0_def)
  have nf: "find_body t use s0 \<noteq> Fatal"
    using assms(2) by (auto simp add: ExclusiveConnection_find_def s0_def)
  have eq: "mOutgoingConnectionsOffset s0 = mOutgoingConnectionsOffset s"
    "mOutgoingConnections s0 = mOutgoingConnections s" by (simp_all add: s0_def)
  from find_body_offset[OF sc nf] obtain s' where
    s': "step_session (find_body t use s0) = Some s'"
    "mOutgoingConnectionsOffset s' =
       (if use = CLIENT_ASYNC \<and> (ex \<noteq> None \<or> av \<noteq> None)
        then (mOutgoingConnectionsOffset s + 1) mod length (mOutgoingConnections s)
        else mOutgoingConnectionsOffset s)" unfolding eq by blast
  have f: "ExclusiveConnection_find t use [] s = find_loop t use [] s0"
    by (simp add: ExclusiveConnection_find_def s0_def)
  show ?thesis unfolding f using s'
    by (cases "find_body t use s0")
       (auto simp add: result_session_def step_session_def)
qed

lemma scan_all_free:
  assumes "\<forall>c \<in> set (mOutgoingConnections s). exclusiveTid (mStore s c) = None"
    "mOutgoingConnections s \<noteq> []"
    "mOutgoingConnectionsOffset s < length (mOutgoingConnections s)"
  shows "scan_outgoing t s =
     Some (None, Some (mOutgoingConnections s ! mOutgoingConnectionsOffset s))"
  using assms by (simp add: scan_outgoing_def findConnection_def loop_all_free sp_value_def)

lemma find_body_async_free:
  assumes "\<forall>c \<in> set (mOutgoingConnections s). exclusiveTid (mStore s c) = None"
    "mOutgoingConnections s \<noteq> []"
    "mOutgoingConnectionsOffset s < length (mOutgoingConnections s)"
  shows "find_body t CLIENT_ASYNC s =
     Break (set_exclusiveTid (mOutgoingConnections s ! mOutgoingConnectionsOffset s) (Some t)
              (s\<lparr>mOutgoingConnectionsOffset :=
                   (mOutgoingConnectionsOffset s + 1) mod length (mOutgoingConnections s)\<rparr>))
       \<lparr>mConnection = Some (mOutgoingConnections s ! mOutgoingConnectionsOffset s),
        mReentrant = False\<rparr>"
  by (simp add: find_body_def scan_all_free[OF assms])

lemma async_then_release:
  assumes "\<forall>c \<in> set (mOutgoingConnections s). exclusiveTid (mStore s c) = None"
    "mOutgoingConnections s \<noteq> []"
    "mOutgoingConnectionsOffset s < length (mOutgoingConnections s)"
  shows "\<exists>s' c. ExclusiveConnection_find t CLIENT_ASYNC env s = Returned OK s' c \<and>
     mConnection c = Some (mOutgoingConnections s ! mOutgoingConnectionsOffset s) \<and>
     \<not> mReentrant c \<and>
     mOutgoingConnections (ExclusiveConnection_destroy c s') = mOutgoingConnections s \<and>
     mOutgoingConnectionsOffset (ExclusiveConnection_destroy c s') =
       (mOutgoingConnectionsOffset s + 1) mod length (mOutgoingConnections s) \<and>
     (\<forall>b \<in> set (mOutgoingConnections s).
        exclusiveTid (mStore (ExclusiveConnection_destroy c s') b) = None)"
proof -
  let ?s = "s\<lparr>mWaitingThreads := mWaitingThreads s + 1\<rparr>"
  have "\<forall>c \<in> set (mOutgoingConnections ?s). exclusiveTid (mStore ?s c) = None"
    "mOutgoingConnections ?s \<noteq> []"
    "mOutgoingConnectionsOffset ?s < length (mOutgoingConnections ?s)"
    using assms by simp_all
  from find_body_async_free[OF this, of t]
  show ?thesis using assms(1)
    by (simp add: ExclusiveConnection_find_def 
        ExclusiveConnection_destroy_def set_exclusiveTid_def Let_def)
qed


text \<open>
  Claim C3. A call of \<^verbatim>\<open>find\<close> during which no other thread acts leaves the cursor
  \<^verbatim>\<open>mOutgoingConnectionsOffset\<close> advanced by one modulo the size of the outgoing pool
  when the use is \<^verbatim>\<open>CLIENT_ASYNC\<close> and the scan of the outgoing pool found an exclusive
  or an available connection, and leaves it as it was otherwise. Consequently, with
  three outgoing connections, all free, and the cursor at \<open>i\<close>, three one-way
  acquisitions in a row, each released before the next, by any threads and under any
  schedule, bind the connections at positions \<open>i\<close>, \<open>i + 1\<close> and \<open>i + 2\<close> modulo 3.
\<close>

theorem async_rotation:
  "(\<forall>ex av. scan_outgoing t s = Some (ex, av) \<and> ExclusiveConnection_find t use [] s \<noteq> Aborted \<longrightarrow>
      (\<exists>s'. result_session (ExclusiveConnection_find t use [] s) = Some s' \<and>
         mOutgoingConnectionsOffset s' =
           (if use = CLIENT_ASYNC \<and> (ex \<noteq> None \<or> av \<noteq> None)
            then (mOutgoingConnectionsOffset s + 1) mod length (mOutgoingConnections s)
            else mOutgoingConnectionsOffset s))) \<and>
   (length (mOutgoingConnections s) = 3 \<and> mOutgoingConnectionsOffset s < 3 \<and>
    (\<forall>c \<in> set (mOutgoingConnections s). exclusiveTid (mStore s c) = None) \<longrightarrow>
      (\<exists>s1 c1 s2 c2 s3 c3.
         ExclusiveConnection_find t1 CLIENT_ASYNC env1 s = Returned OK s1 c1 \<and>
         mConnection c1 = Some (mOutgoingConnections s ! mOutgoingConnectionsOffset s) \<and>
         ExclusiveConnection_find t2 CLIENT_ASYNC env2 (ExclusiveConnection_destroy c1 s1)
           = Returned OK s2 c2 \<and>
         mConnection c2 =
           Some (mOutgoingConnections s ! ((mOutgoingConnectionsOffset s + 1) mod 3)) \<and>
         ExclusiveConnection_find t3 CLIENT_ASYNC env3 (ExclusiveConnection_destroy c2 s2)
           = Returned OK s3 c3 \<and>
         mConnection c3 =
           Some (mOutgoingConnections s ! ((mOutgoingConnectionsOffset s + 2) mod 3))))"
proof (intro conjI allI impI)
  fix ex av
  assume "scan_outgoing t s = Some (ex, av) \<and> ExclusiveConnection_find t use [] s \<noteq> Aborted"
  then show "\<exists>s'. result_session (ExclusiveConnection_find t use [] s) = Some s' \<and>
         mOutgoingConnectionsOffset s' =
           (if use = CLIENT_ASYNC \<and> (ex \<noteq> None \<or> av \<noteq> None)
            then (mOutgoingConnectionsOffset s + 1) mod length (mOutgoingConnections s)
            else mOutgoingConnectionsOffset s)"
    using find_offset by blast
next
  let ?out = "mOutgoingConnections s"
  let ?i = "mOutgoingConnectionsOffset s"
  assume a: "length ?out = 3 \<and> ?i < 3 \<and> (\<forall>c \<in> set ?out. exclusiveTid (mStore s c) = None)"
  then have a0: "\<forall>c \<in> set ?out. exclusiveTid (mStore s c) = None" "?out \<noteq> []" "?i < length ?out"
    by auto
  from async_then_release[OF a0, of t1 env1] obtain s1 c1 where
    r1: "ExclusiveConnection_find t1 CLIENT_ASYNC env1 s = Returned OK s1 c1"
      "mConnection c1 = Some (?out ! ?i)"
      "mOutgoingConnections (ExclusiveConnection_destroy c1 s1) = ?out"
      "mOutgoingConnectionsOffset (ExclusiveConnection_destroy c1 s1) = (?i + 1) mod length ?out"
      "\<forall>b \<in> set ?out. exclusiveTid (mStore (ExclusiveConnection_destroy c1 s1) b) = None"
    by blast
  let ?u = "ExclusiveConnection_destroy c1 s1"
  have a1: "\<forall>c \<in> set (mOutgoingConnections ?u). exclusiveTid (mStore ?u c) = None"
    "mOutgoingConnections ?u \<noteq> []"
    "mOutgoingConnectionsOffset ?u < length (mOutgoingConnections ?u)"
    using r1(3,4,5) a0 by simp_all
  from async_then_release[OF a1, of t2 env2] obtain s2 c2 where
    r2: "ExclusiveConnection_find t2 CLIENT_ASYNC env2 ?u = Returned OK s2 c2"
      "mConnection c2 = Some (mOutgoingConnections ?u ! mOutgoingConnectionsOffset ?u)"
      "mOutgoingConnections (ExclusiveConnection_destroy c2 s2) = mOutgoingConnections ?u"
      "mOutgoingConnectionsOffset (ExclusiveConnection_destroy c2 s2) =
         (mOutgoingConnectionsOffset ?u + 1) mod length (mOutgoingConnections ?u)"
      "\<forall>b \<in> set (mOutgoingConnections ?u).
         exclusiveTid (mStore (ExclusiveConnection_destroy c2 s2) b) = None"
    by blast
  let ?v = "ExclusiveConnection_destroy c2 s2"
  have a2: "\<forall>c \<in> set (mOutgoingConnections ?v). exclusiveTid (mStore ?v c) = None"
    "mOutgoingConnections ?v \<noteq> []"
    "mOutgoingConnectionsOffset ?v < length (mOutgoingConnections ?v)"
    using r2(3,4,5) a1 by simp_all
  from async_then_release[OF a2, of t3 env3] obtain s3 c3 where
    r3: "ExclusiveConnection_find t3 CLIENT_ASYNC env3 ?v = Returned OK s3 c3"
      "mConnection c3 = Some (mOutgoingConnections ?v ! mOutgoingConnectionsOffset ?v)"
    by blast
  have i1: "mOutgoingConnectionsOffset ?u = (?i + 1) mod 3"
    using r1(4) a by simp
  have i2: "mOutgoingConnectionsOffset ?v = (?i + 2) mod 3"
    using r2(4) r1(3) i1 a by (simp add: mod_Suc_eq)
  have e2: "mConnection c2 = Some (?out ! ((?i + 1) mod 3))"
    using r2(2) r1(3) i1 by simp
  have e3: "mConnection c3 = Some (?out ! ((?i + 2) mod 3))"
    using r3(2) r2(3) r1(3) i2 by simp
  show "\<exists>s1 c1 s2 c2 s3 c3.
         ExclusiveConnection_find t1 CLIENT_ASYNC env1 s = Returned OK s1 c1 \<and>
         mConnection c1 = Some (?out ! ?i) \<and>
         ExclusiveConnection_find t2 CLIENT_ASYNC env2 (ExclusiveConnection_destroy c1 s1)
           = Returned OK s2 c2 \<and>
         mConnection c2 = Some (?out ! ((?i + 1) mod 3)) \<and>
         ExclusiveConnection_find t3 CLIENT_ASYNC env3 (ExclusiveConnection_destroy c2 s2)
           = Returned OK s3 c3 \<and>
         mConnection c3 = Some (?out ! ((?i + 2) mod 3))"
    using r1(1,2) r2(1) e2 r3(1) e3 by blast
qed


text \<open>The client-side session with the cursor at 2: the calls bind connections 2, 0, 1.\<close>

theorem async_rotation_witness:
  "scan_outgoing 7 (client_session\<lparr>mOutgoingConnectionsOffset := 2\<rparr>) = Some (None, Some 2) \<and>
   (\<exists>s'. result_session (ExclusiveConnection_find 7 CLIENT_ASYNC []
             (client_session\<lparr>mOutgoingConnectionsOffset := 2\<rparr>)) = Some s' \<and>
      mOutgoingConnectionsOffset s' = 0) \<and>
   (\<exists>s1 c1 s2 c2 s3 c3.
      ExclusiveConnection_find 7 CLIENT_ASYNC [] (client_session\<lparr>mOutgoingConnectionsOffset := 2\<rparr>)
        = Returned OK s1 c1 \<and>
      mConnection c1 = Some 2 \<and>
      ExclusiveConnection_find 8 CLIENT_ASYNC [] (ExclusiveConnection_destroy c1 s1)
        = Returned OK s2 c2 \<and>
      mConnection c2 = Some 0 \<and>
      ExclusiveConnection_find 9 CLIENT_ASYNC [] (ExclusiveConnection_destroy c2 s2)
        = Returned OK s3 c3 \<and>
      mConnection c3 = Some 1)"
proof -
  let ?s = "client_session\<lparr>mOutgoingConnectionsOffset := 2\<rparr>"
  have h: "length (mOutgoingConnections ?s) = 3 \<and> mOutgoingConnectionsOffset ?s < 3 \<and>
    (\<forall>c \<in> set (mOutgoingConnections ?s). exclusiveTid (mStore ?s c) = None)"
    by (simp add: client_session_def new_session_def new_connection_def)
  have sc: "scan_outgoing 7 ?s = Some (None, Some 2)"
    by (simp add: scan_outgoing_def findConnection_def sp_value_def client_session_def
        new_session_def new_connection_def upt_conv_Cons Let_def)
  have na: "ExclusiveConnection_find 7 CLIENT_ASYNC [] ?s \<noteq> Aborted"
    by (simp add: ExclusiveConnection_find_def find_body_def sc Let_def)
  show ?thesis
    using async_rotation[of 7 ?s CLIENT_ASYNC 7 "[]" 8 "[]" 9 "[]"] h sc na
    by (simp add: client_session_def new_session_def)
qed

subsection \<open>Releasing a handle\<close>

text \<open>
  Claim C4. The destructor of a reentrant handle leaves the session as it is. The
  destructor of a non-reentrant handle bound to connection \<open>a\<close> clears the owner of
  \<open>a\<close>, calls \<^verbatim>\<open>notify_one\<close> once when \<^verbatim>\<open>mWaitingThreads > 0\<close> and not at all
  otherwise, and changes nothing else: no other connection, no other field of \<open>a\<close>,
  no other member of the session. (A handle that is bound to no connection, as after
  a failed \<^verbatim>\<open>find\<close>, is destroyed without any effect.)
\<close>

theorem destroy_releases:
  "(mReentrant c \<longrightarrow> ExclusiveConnection_destroy c s = s) \<and>
   (\<not> mReentrant c \<and> mConnection c = Some a \<longrightarrow>
      exclusiveTid (mStore (ExclusiveConnection_destroy c s) a) = None \<and>
      mNotifyOne (ExclusiveConnection_destroy c s) =
        mNotifyOne s + (if mWaitingThreads s > 0 then 1 else 0) \<and>
      (\<forall>b. b \<noteq> a \<longrightarrow> mStore (ExclusiveConnection_destroy c s) b = mStore s b) \<and>
      (mStore (ExclusiveConnection_destroy c s) a)\<lparr>exclusiveTid := exclusiveTid (mStore s a)\<rparr>
        = mStore s a \<and>
      (ExclusiveConnection_destroy c s)\<lparr>mStore := mStore s, mNotifyOne := mNotifyOne s\<rparr> = s)"
  by (simp add: ExclusiveConnection_destroy_def set_exclusiveTid_def Let_def split: option.splits)

text \<open>Connection 1 of the client-side session, held by thread 7: released with two
  waiters, released with none, and a reentrant handle on it.\<close>

theorem destroy_releases_witness:
  "exclusiveTid (mStore (set_exclusiveTid 1 (Some 7) client_session\<lparr>mWaitingThreads := 2\<rparr>) 1) = Some 7 \<and>
   exclusiveTid (mStore (ExclusiveConnection_destroy \<lparr>mConnection = Some 1, mReentrant = False\<rparr>
      (set_exclusiveTid 1 (Some 7) client_session\<lparr>mWaitingThreads := 2\<rparr>)) 1) = None \<and>
   mNotifyOne (ExclusiveConnection_destroy \<lparr>mConnection = Some 1, mReentrant = False\<rparr>
      (set_exclusiveTid 1 (Some 7) client_session\<lparr>mWaitingThreads := 2\<rparr>)) = 1 \<and>
   mNotifyOne (ExclusiveConnection_destroy \<lparr>mConnection = Some 1, mReentrant = False\<rparr>
      (set_exclusiveTid 1 (Some 7) client_session)) = 0 \<and>
   ExclusiveConnection_destroy \<lparr>mConnection = Some 1, mReentrant = True\<rparr>
      (set_exclusiveTid 1 (Some 7) client_session\<lparr>mWaitingThreads := 2\<rparr>)
     = set_exclusiveTid 1 (Some 7) client_session\<lparr>mWaitingThreads := 2\<rparr>"
  using destroy_releases[of "\<lparr>mConnection = Some 1, mReentrant = False\<rparr>"
          "set_exclusiveTid 1 (Some 7) client_session\<lparr>mWaitingThreads := 2\<rparr>" 1]
        destroy_releases[of "\<lparr>mConnection = Some 1, mReentrant = False\<rparr>"
          "set_exclusiveTid 1 (Some 7) client_session" 1]
        destroy_releases[of "\<lparr>mConnection = Some 1, mReentrant = True\<rparr>"
          "set_exclusiveTid 1 (Some 7) client_session\<lparr>mWaitingThreads := 2\<rparr>" 1]
  by (simp add: set_exclusiveTid_def client_session_def new_session_def)

subsection \<open>Admitting an incoming connection\<close>

text \<open>
  Claim C5. \<^verbatim>\<open>assignIncomingConnectionToThisThread\<close> returns null exactly when the
  incoming pool has reached \<^verbatim>\<open>mMaxThreads\<close> or has fallen below its high-water mark
  \<^verbatim>\<open>mMaxIncomingConnections\<close>, and then changes nothing. Otherwise it appends the new
  connection, owned by the calling thread and holding the transport, to the incoming
  pool, sets the high-water mark to the new size, and leaves the outgoing pool, the
  thread limit and every other connection alone. Either way the invariant
  \<open>size of the incoming pool \<le> high-water mark \<le> mMaxThreads\<close> is kept.
\<close>

theorem assign_incoming:
  "(fst (assignIncomingConnectionToThisThread t tr s) = None \<longleftrightarrow>
      (length (mIncomingConnections s) \<ge> mMaxThreads s \<or>
       length (mIncomingConnections s) < mMaxIncomingConnections s)) \<and>
   (fst (assignIncomingConnectionToThisThread t tr s) = None \<longrightarrow>
      snd (assignIncomingConnectionToThisThread t tr s) = s) \<and>
   (\<forall>c s'. assignIncomingConnectionToThisThread t tr s = (Some c, s') \<longrightarrow>
      mIncomingConnections s' = mIncomingConnections s @ [c] \<and>
      exclusiveTid (mStore s' c) = Some t \<and>
      rpcTransport (mStore s' c) = Some tr \<and>
      mMaxIncomingConnections s' = length (mIncomingConnections s') \<and>
      mOutgoingConnections s' = mOutgoingConnections s \<and>
      mMaxThreads s' = mMaxThreads s \<and>
      (\<forall>b. b \<noteq> c \<longrightarrow> mStore s' b = mStore s b)) \<and>
   (length (mIncomingConnections s) \<le> mMaxIncomingConnections s \<and>
    mMaxIncomingConnections s \<le> mMaxThreads s \<longrightarrow>
      length (mIncomingConnections (snd (assignIncomingConnectionToThisThread t tr s)))
        \<le> mMaxIncomingConnections (snd (assignIncomingConnectionToThisThread t tr s)) \<and>
      mMaxIncomingConnections (snd (assignIncomingConnectionToThisThread t tr s))
        \<le> mMaxThreads (snd (assignIncomingConnectionToThisThread t tr s)))"
  by (auto simp add: assignIncomingConnectionToThisThread_def RpcConnection_make_def
      init_connection_def Let_def)


text \<open>The server-side session: full at its limit of 1; with the limit raised to 2 the
  next connection is admitted; after its worker has left it is not.\<close>

theorem assign_incoming_witness:
  "length (mIncomingConnections server_session) \<ge> mMaxThreads server_session \<and>
   assignIncomingConnectionToThisThread 4 51 server_session = (None, server_session) \<and>
   length (mIncomingConnections (server_session\<lparr>mMaxThreads := 2\<rparr>))
     \<le> mMaxIncomingConnections (server_session\<lparr>mMaxThreads := 2\<rparr>) \<and>
   mMaxIncomingConnections (server_session\<lparr>mMaxThreads := 2\<rparr>)
     \<le> mMaxThreads (server_session\<lparr>mMaxThreads := 2\<rparr>) \<and>
   (\<exists>s'. assignIncomingConnectionToThisThread 4 51 (server_session\<lparr>mMaxThreads := 2\<rparr>)
           = (Some 1, s') \<and>
      mIncomingConnections s' = [0, 1] \<and> exclusiveTid (mStore s' 1) = Some 4 \<and>
      mMaxIncomingConnections s' = 2 \<and> mMaxThreads s' = 2) \<and>
   fst (assignIncomingConnectionToThisThread 5 52
          (server_session\<lparr>mMaxThreads := 2, mIncomingConnections := []\<rparr>)) = None"
proof -
  have r: "length (mIncomingConnections server_session) \<ge> mMaxThreads server_session"
    by (simp add: server_session_def new_session_def)
  have d: "length (mIncomingConnections (server_session\<lparr>mMaxThreads := 2, mIncomingConnections := []\<rparr>))
     < mMaxIncomingConnections (server_session\<lparr>mMaxThreads := 2, mIncomingConnections := []\<rparr>)"
    by (simp add: server_session_def new_session_def)
  have i: "length (mIncomingConnections (server_session\<lparr>mMaxThreads := 2\<rparr>))
     \<le> mMaxIncomingConnections (server_session\<lparr>mMaxThreads := 2\<rparr>) \<and>
   mMaxIncomingConnections (server_session\<lparr>mMaxThreads := 2\<rparr>)
     \<le> mMaxThreads (server_session\<lparr>mMaxThreads := 2\<rparr>)"
    by (simp add: server_session_def new_session_def)
  obtain c s' where a: "assignIncomingConnectionToThisThread 4 51 (server_session\<lparr>mMaxThreads := 2\<rparr>) = (c, s')"
    by (cases "assignIncomingConnectionToThisThread 4 51 (server_session\<lparr>mMaxThreads := 2\<rparr>)")
  have c: "c = Some 1" using a
    by (simp add: assignIncomingConnectionToThisThread_def RpcConnection_make_def Let_def
        server_session_def new_session_def) 
  have 1: "assignIncomingConnectionToThisThread 4 51 server_session = (None, server_session)"
    using assign_incoming[of 4 51 server_session] r
    by (cases "assignIncomingConnectionToThisThread 4 51 server_session") simp
  have 2: "mIncomingConnections s' = [0, 1] \<and> exclusiveTid (mStore s' 1) = Some 4 \<and>
      mMaxIncomingConnections s' = 2 \<and> mMaxThreads s' = 2"
    using assign_incoming[of 4 51 "server_session\<lparr>mMaxThreads := 2\<rparr>"] a c
    by (simp add: server_session_def new_session_def)
  have 3: "fst (assignIncomingConnectionToThisThread 5 52
          (server_session\<lparr>mMaxThreads := 2, mIncomingConnections := []\<rparr>)) = None"
    using assign_incoming[of 5 52 "server_session\<lparr>mMaxThreads := 2, mIncomingConnections := []\<rparr>"] d
    by simp
  show ?thesis using r i 1 2 3 a c by blast
qed


subsection \<open>The protocol version is only lowered\<close>

text \<open>
  Claim C6. On a session whose protocol version is set to \<open>p\<close>,
  \<^verbatim>\<open>setProtocolVersion(v)\<close> with \<open>v > p\<close> returns false and changes nothing; with
  \<open>v \<le> p\<close> and \<open>v\<close> a known version (below \<^verbatim>\<open>RPC_WIRE_PROTOCOL_VERSION_NEXT\<close> or
  equal to \<^verbatim>\<open>RPC_WIRE_PROTOCOL_VERSION_EXPERIMENTAL\<close>) it returns true and sets the
  version to \<open>v\<close>. In every case the version afterwards is set and at most \<open>p\<close>.
\<close>

theorem setProtocolVersion_lowers:
  assumes "mProtocolVersion s = Some p"
  shows "(v > p \<longrightarrow> setProtocolVersion vn ve v s = (False, s)) \<and>
         (v \<le> p \<and> \<not> (v \<ge> vn \<and> v \<noteq> ve) \<longrightarrow>
            setProtocolVersion vn ve v s = (True, s\<lparr>mProtocolVersion := Some v\<rparr>)) \<and>
         (\<exists>q. mProtocolVersion (snd (setProtocolVersion vn ve v s)) = Some q \<and> q \<le> p)"
  using assms by (auto simp add: setProtocolVersion_def)


text \<open>With version 1 set, next version 2 and experimental version \<open>0xF0000000\<close>: the
  experimental version is refused and version 0 is accepted.\<close>

theorem setProtocolVersion_lowers_witness:
  "mProtocolVersion (client_session\<lparr>mProtocolVersion := Some 1\<rparr>) = Some 1 \<and>
   setProtocolVersion 2 0xF0000000 0xF0000000 (client_session\<lparr>mProtocolVersion := Some 1\<rparr>)
     = (False, client_session\<lparr>mProtocolVersion := Some 1\<rparr>) \<and>
   setProtocolVersion 2 0xF0000000 0 (client_session\<lparr>mProtocolVersion := Some 1\<rparr>)
     = (True, client_session\<lparr>mProtocolVersion := Some 0\<rparr>)"
proof -
  have h: "mProtocolVersion (client_session\<lparr>mProtocolVersion := Some 1\<rparr>) = Some 1" by simp
  show ?thesis
    using setProtocolVersion_lowers[OF h, of "0xF0000000" 2 "0xF0000000"]
          setProtocolVersion_lowers[OF h, of 0 2 "0xF0000000"]
    by simp
qed

subsection \<open>A new outgoing connection is free\<close>

lemma loop_keeps_available:
  "sockets \<noteq> [] \<Longrightarrow> snd (findConnection_loop t st sockets hint is ex (Some (Some a))) = Some (Some a)"
  by (induction "is") (simp_all add: Let_def)

lemma loop_finds:
  assumes "i \<in> set is" "exclusiveTid (st (sockets ! ((i + hint) mod length sockets))) = None"
    "sockets \<noteq> []"
    "findConnection_loop t st sockets hint is None (Some None) = (ex, av)"
  shows "ex \<noteq> None \<or> (\<exists>a. av = Some (Some a))"
  using assms
proof (induction "is")
  case Nil
  then show ?case by simp
next
  case (Cons j js)
  let ?socket = "sockets ! ((j + hint) mod length sockets)"
  show ?case
  proof (cases "exclusiveTid (st ?socket) = None")
    case True
    then have "findConnection_loop t st sockets hint js None (Some (Some ?socket)) = (ex, av)"
      using Cons.prems(4) by (simp add: Let_def)
    then have "av = Some (Some ?socket)"
      using loop_keeps_available[OF Cons.prems(3), of t st hint js None ?socket] by simp
    then show ?thesis by blast
  next
    case False
    show ?thesis
    proof (cases "exclusiveTid (st ?socket) = Some t")
      case True
      then show ?thesis using Cons.prems(4) False by (auto simp add: Let_def)
    next
      case nt: False
      have "i \<noteq> j" using False Cons.prems(2) by auto
      then have "i \<in> set js" using Cons.prems(1) by simp
      moreover have "findConnection_loop t st sockets hint js None (Some None) = (ex, av)"
        using Cons.prems(4) False nt by (simp add: Let_def)
      ultimately show ?thesis using Cons.IH Cons.prems(2,3) by blast
    qed
  qed
qed

lemma scan_finds_free:
  assumes "a \<in> set (mOutgoingConnections s)" "exclusiveTid (mStore s a) = None"
    "mOutgoingConnectionsOffset s < length (mOutgoingConnections s)"
  shows "\<exists>ex av. scan_outgoing t s = Some (ex, av) \<and> (ex \<noteq> None \<or> av \<noteq> None)"
proof -
  let ?out = "mOutgoingConnections s"
  let ?n = "length ?out"
  let ?h = "mOutgoingConnectionsOffset s"
  from assms(1) obtain k where k: "k < ?n" "?out ! k = a" by (auto simp add: in_set_conv_nth)
  have ne: "?out \<noteq> []" using assms(3) by auto
  define i where "i = (k + ?n - ?h) mod ?n"
  have "i < ?n" using ne by (simp add: i_def)
  then have mem: "i \<in> set [0..<?n]" by simp
  have "(i + ?h) mod ?n = (k + ?n - ?h + ?h) mod ?n"
    unfolding i_def by (simp add: mod_add_left_eq)
  also have "\<dots> = k" using k(1) assms(3) by simp
  finally have free: "exclusiveTid (mStore s (?out ! ((i + ?h) mod ?n))) = None"
    using k(2) assms(2) by simp
  obtain ex av where r: "findConnection_loop t (mStore s) ?out ?h [0..<?n] None (Some None) = (ex, av)"
    by (cases "findConnection_loop t (mStore s) ?out ?h [0..<?n] None (Some None)")
  from loop_finds[OF mem free ne r] have "ex \<noteq> None \<or> (\<exists>a. av = Some (Some a))" .
  then have "ex \<noteq> None \<or> sp_value av \<noteq> None" by (auto simp add: sp_value_def)
  moreover have "scan_outgoing t s = Some (ex, sp_value av)"
    using assms(3) r by (simp add: scan_outgoing_def findConnection_def)
  ultimately show ?thesis by blast
qed

lemma use_serving_socket_Some: "\<exists>r. use_serving_socket t use s ex av = Some r"
  by (cases "mIncomingConnections s = []")
     (auto simp add: use_serving_socket_def findConnection_def split: option.split prod.split)

lemma find_body_breaks:
  assumes "scan_outgoing t s = Some (ex, av)" "ex \<noteq> None \<or> av \<noteq> None"
  shows "\<exists>s' c. find_body t use s = Break s' c"
proof -
  define s1 where "s1 =
    (if use = CLIENT_ASYNC \<and> (ex \<noteq> None \<or> av \<noteq> None)
     then s\<lparr>mOutgoingConnectionsOffset :=
              (mOutgoingConnectionsOffset s + 1) mod length (mOutgoingConnections s)\<rparr>
     else s)"
  have fb: "find_body t use s =
     (case use_serving_socket t use s1 ex av of
        None \<Rightarrow> Fatal
      | Some exclusive \<Rightarrow>
          (case exclusive of
             Some e \<Rightarrow> Break s1 \<lparr>mConnection = Some e, mReentrant = True\<rparr>
           | None \<Rightarrow>
               (case av of
                  Some a \<Rightarrow> Break (set_exclusiveTid a (Some t) s1)
                              \<lparr>mConnection = Some a, mReentrant = False\<rparr>
                | None \<Rightarrow>
                    if length (mOutgoingConnections s1) = 0 then ReturnWouldBlock s1
                    else CvWait s1)))"
    by (simp only: find_body_def assms(1) option.case prod.case Let_def s1_def)
  obtain r where r: "use_serving_socket t use s1 ex av = Some r"
    using use_serving_socket_Some by blast
  have keep: "ex \<noteq> None \<Longrightarrow> r \<noteq> None"
    using r by (auto simp add: use_serving_socket_def split: if_splits option.splits prod.splits)
  show ?thesis unfolding fb r using assms(2) keep
    by (cases r; cases av) auto
qed

lemma find_ok_if_free:
  assumes "a \<in> set (mOutgoingConnections s)" "exclusiveTid (mStore s a) = None"
    "mOutgoingConnectionsOffset s < length (mOutgoingConnections s)"
  shows "\<exists>s' c. ExclusiveConnection_find t use env s = Returned OK s' c"
proof -
  let ?s = "s\<lparr>mWaitingThreads := mWaitingThreads s + 1\<rparr>"
  from scan_finds_free[OF assms, of t] obtain ex av where
    sc: "scan_outgoing t ?s = Some (ex, av)" "ex \<noteq> None \<or> av \<noteq> None" by auto
  from find_body_breaks[OF sc, of use] obtain s' c where "find_body t use ?s = Break s' c"
    by blast
  then show ?thesis by (simp add: ExclusiveConnection_find_def)
qed


text \<open>
  Claim C10. \<^verbatim>\<open>addOutgoingConnection\<close> returns \<^verbatim>\<open>OK\<close>. The connection it creates
  is owned by the adding thread when the first critical section ends, and its owner is
  cleared when the function returns, whatever \<^verbatim>\<open>sendConnectionInit\<close> and the other
  threads did in between (\<open>f\<close>). When nothing else touches the session, the connection
  is the last of the outgoing pool and a call of \<^verbatim>\<open>find\<close> by any thread, for any use
  and under any schedule, returns \<^verbatim>\<open>OK\<close> without waiting.
\<close>

theorem addOutgoing_owner_cleared:
  "fst (addOutgoingConnection t tr init f s) = OK \<and>
   fst (addOutgoingConnection_push t tr s) = mNextConn s \<and>
   exclusiveTid (mStore (snd (addOutgoingConnection_push t tr s)) (mNextConn s)) = Some t \<and>
   exclusiveTid (mStore (snd (addOutgoingConnection t tr init f s)) (mNextConn s)) = None \<and>
   mOutgoingConnections (snd (addOutgoingConnection t tr init (\<lambda>c x. x) s)) =
     mOutgoingConnections s @ [mNextConn s] \<and>
   (mOutgoingConnectionsOffset s \<le> length (mOutgoingConnections s) \<longrightarrow>
      (\<forall>t' use env. \<exists>s' c.
         ExclusiveConnection_find t' use env (snd (addOutgoingConnection t tr init (\<lambda>c x. x) s))
           = Returned OK s' c))"
proof -
  let ?r = "snd (addOutgoingConnection t tr init (\<lambda>c x. x) s)"
  have basic: "fst (addOutgoingConnection t tr init f s) = OK \<and>
   fst (addOutgoingConnection_push t tr s) = mNextConn s \<and>
   exclusiveTid (mStore (snd (addOutgoingConnection_push t tr s)) (mNextConn s)) = Some t \<and>
   exclusiveTid (mStore (snd (addOutgoingConnection t tr init f s)) (mNextConn s)) = None \<and>
   mOutgoingConnections ?r = mOutgoingConnections s @ [mNextConn s]"
    by (simp add: addOutgoingConnection_def addOutgoingConnection_push_def RpcConnection_make_def
      init_connection_def set_exclusiveTid_def Let_def)
  have own: "exclusiveTid (mStore ?r (mNextConn s)) = None"
    by (simp add: addOutgoingConnection_def addOutgoingConnection_push_def RpcConnection_make_def
      init_connection_def set_exclusiveTid_def Let_def)
  have off: "mOutgoingConnectionsOffset ?r = mOutgoingConnectionsOffset s"
    by (simp add: addOutgoingConnection_def addOutgoingConnection_push_def RpcConnection_make_def
      init_connection_def set_exclusiveTid_def Let_def)
  have acq: "\<exists>s' c. ExclusiveConnection_find t' use env ?r = Returned OK s' c"
    if "mOutgoingConnectionsOffset s \<le> length (mOutgoingConnections s)" for t' use env
  proof (rule find_ok_if_free[of "mNextConn s"])
    show "mNextConn s \<in> set (mOutgoingConnections ?r)" using basic by simp
    show "exclusiveTid (mStore ?r (mNextConn s)) = None" by (rule own)
    show "mOutgoingConnectionsOffset ?r < length (mOutgoingConnections ?r)"
      using that basic off by simp
  qed
  show ?thesis using basic acq by blast
qed


text \<open>The first outgoing connection of a session as constructed, added by thread 7 and
  acquired by thread 8.\<close>

theorem addOutgoing_owner_cleared_witness:
  "mOutgoingConnectionsOffset new_session \<le> length (mOutgoingConnections new_session) \<and>
   exclusiveTid (mStore (snd (addOutgoingConnection 7 100 True (\<lambda>c x. x) new_session)) 0) = None \<and>
   mOutgoingConnections (snd (addOutgoingConnection 7 100 True (\<lambda>c x. x) new_session)) = [0] \<and>
   (\<exists>s' c. ExclusiveConnection_find 8 CLIENT []
              (snd (addOutgoingConnection 7 100 True (\<lambda>c x. x) new_session)) = Returned OK s' c)"
proof -
  have h: "mOutgoingConnectionsOffset new_session \<le> length (mOutgoingConnections new_session)"
    by (simp add: new_session_def)
  have n: "mNextConn new_session = 0" "mOutgoingConnections new_session = []"
    by (simp_all add: new_session_def)
  show ?thesis
    using addOutgoing_owner_cleared[of 7 100 True "\<lambda>c x. x" new_session] h n
    by simp
qed

subsection \<open>The connect loop\<close>

declare connect_loop.simps [simp del]

lemma connect_loop_exhausted:
  "\<not> tries < 5 \<Longrightarrow> connect_loop os tries connects usleeps =
     \<lparr>ct_result = Inl UNKNOWN_ERROR, ct_tries = tries, ct_connects = connects,
      ct_usleeps = usleeps\<rparr>"
  by (subst connect_loop.simps) simp

lemma connect_loop_continue:
  "tries < 5 \<Longrightarrow> connect_pass (os tries) = Continue \<Longrightarrow>
   connect_loop os tries connects usleeps =
     connect_loop os (tries + 1) (if called_connect (os tries) then connects + 1 else connects)
       (if tries > 0 then usleeps @ [10000] else usleeps)"
  by (subst connect_loop.simps) (simp add: Let_def)

lemma connect_loop_leave:
  "tries < 5 \<Longrightarrow> connect_pass (os tries) = Leave r \<Longrightarrow>
   connect_loop os tries connects usleeps =
     \<lparr>ct_result = r, ct_tries = tries + 1,
      ct_connects = (if called_connect (os tries) then connects + 1 else connects),
      ct_usleeps = (if tries > 0 then usleeps @ [10000] else usleeps)\<rparr>"
  by (subst connect_loop.simps) (simp add: Let_def)
















subsection \<open>What acquiring and releasing leave alone\<close>

lemma destroy_pools [simp]: "pools (ExclusiveConnection_destroy c s) = pools s"
  by (simp add: pools_def ExclusiveConnection_destroy_def set_exclusiveTid_def Let_def
      split: option.splits)

lemma find_body_pools:
  assumes "step_session (find_body t use s) = Some s'"
  shows "pools s' = pools s"
proof (cases "scan_outgoing t s")
  case None
  then show ?thesis using assms by (simp add: find_body_def step_session_def)
next
  case (Some p)
  obtain ex av where p: "p = (ex, av)" by (cases p)
  define s1 where "s1 =
    (if use = CLIENT_ASYNC \<and> (ex \<noteq> None \<or> av \<noteq> None)
     then s\<lparr>mOutgoingConnectionsOffset :=
              (mOutgoingConnectionsOffset s + 1) mod length (mOutgoingConnections s)\<rparr>
     else s)"
  have p1: "pools s1 = pools s" by (simp add: s1_def pools_def)
  have fb: "find_body t use s =
     (case use_serving_socket t use s1 ex av of
        None \<Rightarrow> Fatal
      | Some exclusive \<Rightarrow>
          (case exclusive of
             Some e \<Rightarrow> Break s1 \<lparr>mConnection = Some e, mReentrant = True\<rparr>
           | None \<Rightarrow>
               (case av of
                  Some a \<Rightarrow> Break (set_exclusiveTid a (Some t) s1)
                              \<lparr>mConnection = Some a, mReentrant = False\<rparr>
                | None \<Rightarrow>
                    if length (mOutgoingConnections s1) = 0 then ReturnWouldBlock s1
                    else CvWait s1)))"
    using Some p by (simp only: find_body_def option.case prod.case Let_def s1_def)
  obtain r where r: "use_serving_socket t use s1 ex av = Some r"
    using use_serving_socket_Some by blast
  have "pools s' = pools s1"
    using assms unfolding fb r
    by (cases r; cases av)
       (auto simp add: step_session_def set_exclusiveTid_def pools_def split: if_splits)
  then show ?thesis using p1 by simp
qed

lemma find_pools:
  assumes "result_session (ExclusiveConnection_find t use [] s) = Some s'"
  shows "pools s' = pools s"
proof -
  let ?s = "s\<lparr>mWaitingThreads := mWaitingThreads s + 1\<rparr>"
  have p0: "pools ?s = pools s" by (simp add: pools_def)
  show ?thesis
  proof (cases "find_body t use ?s")
    case (Break s1 c)
    then have "pools s1 = pools ?s"
      using find_body_pools[of t use ?s s1] by (simp add: step_session_def)
    then show ?thesis using assms Break p0
      by (auto simp add: ExclusiveConnection_find_def result_session_def pools_def)
  next
    case (ReturnWouldBlock s1)
    then have "pools s1 = pools ?s"
      using find_body_pools[of t use ?s s1] by (simp add: step_session_def)
    then show ?thesis using assms ReturnWouldBlock p0
      by (auto simp add: ExclusiveConnection_find_def result_session_def)
  next
    case (CvWait s1)
    then have "pools s1 = pools ?s"
      using find_body_pools[of t use ?s s1] by (simp add: step_session_def)
    then show ?thesis using assms CvWait p0
      by (auto simp add: ExclusiveConnection_find_def result_session_def)
  next
    case Fatal
    then show ?thesis using assms by (simp add: ExclusiveConnection_find_def result_session_def)
  qed
qed

lemma setProtocolVersion_pools: "pools (snd (setProtocolVersion vn ve v s)) = pools s"
  by (simp add: setProtocolVersion_def pools_def split: option.splits)

subsection \<open>The pools after a client setup\<close>

lemma readNewSession_pools:
  assumes "readNewSession vn ve t env s = Ret st s'"
  shows "pools s' = pools s"
proof (cases "ExclusiveConnection_find t CLIENT [] s")
  case (Returned status s1 c)
  then have p1: "pools s1 = pools s"
    using find_pools[of t CLIENT s s1] by (simp add: result_session_def)
  show ?thesis
    using assms Returned p1 setProtocolVersion_pools[of vn ve "snd (newSessionResponse env)" s1]
    by (auto simp add: readNewSession_def split: if_splits prod.splits bool.splits)
qed (use assms in \<open>simp_all add: readNewSession_def\<close>)

lemma getRemoteMaxThreads_pools:
  assumes "getRemoteMaxThreads t env s = Ret r s'"
  shows "pools s' = pools s \<and> (fst r = OK \<longrightarrow> r = remoteMaxThreads env)"
proof (cases "ExclusiveConnection_find t CLIENT [] s")
  case (Returned status s1 c)
  then have p1: "pools s1 = pools s"
    using find_pools[of t CLIENT s s1] by (simp add: result_session_def)
  show ?thesis
    using assms Returned p1
    by (auto simp add: getRemoteMaxThreads_def split: if_splits)
qed (use assms in \<open>simp_all add: getRemoteMaxThreads_def\<close>)

lemma readId_pools:
  assumes "readId t env s = Ret st s'"
  shows "pools s' = pools s"
proof (cases "ExclusiveConnection_find t CLIENT [] s")
  case (Returned status s1 c)
  then have p1: "pools s1 = pools s"
    using find_pools[of t CLIENT s s1] by (simp add: result_session_def)
  show ?thesis
    using assms Returned p1
    by (auto simp add: readId_def split: if_splits)
qed (use assms in \<open>simp_all add: readId_def split: if_splits\<close>)

lemma initShutdownTrigger_pools:
  "initShutdownTrigger made s = (st, s') \<Longrightarrow>
   mOutgoingConnections s' = mOutgoingConnections s \<and>
   mIncomingConnections s' = mIncomingConnections s \<and>
   mMaxIncomingConnections s' = mMaxIncomingConnections s \<and>
   mMaxThreads s' = mMaxThreads s"
  by (auto simp add: initShutdownTrigger_def Let_def split: if_splits)

lemma connectAndInit_outgoing:
  assumes "connectAndInit t env k False s = Ret OK s'" "connect env k \<noteq> Inl OK"
  shows "mOutgoingConnections s' = mOutgoingConnections s @ [mNextConn s] \<and>
   mIncomingConnections s' = mIncomingConnections s \<and>
   mMaxIncomingConnections s' = mMaxIncomingConnections s \<and>
   mMaxThreads s' = mMaxThreads s"
  using assms
  by (auto simp add: connectAndInit_def initAndAddConnection_def addOutgoingConnection_def
      addOutgoingConnection_push_def RpcConnection_make_def init_connection_def
      set_exclusiveTid_def Let_def status_defs
      split: sum.splits option.splits if_splits)

lemma connectAndInit_incoming:
  assumes "connectAndInit t env k True s = Ret OK s'" "connect env k \<noteq> Inl OK"
    "length (mIncomingConnections s) < mMaxThreads s"
    "mMaxIncomingConnections s \<le> length (mIncomingConnections s)"
  shows "mOutgoingConnections s' = mOutgoingConnections s \<and>
   length (mIncomingConnections s') = length (mIncomingConnections s) + 1 \<and>
   mMaxIncomingConnections s' = length (mIncomingConnections s) + 1 \<and>
   mMaxThreads s' = mMaxThreads s"
  using assms
  by (auto simp add: connectAndInit_def initAndAddConnection_def addIncomingConnection_def
      preJoinThreadOwnership_def preJoinSetup_def assignIncomingConnectionToThisThread_def
      RpcConnection_make_def init_connection_def Let_def status_defs
      split: sum.splits option.splits if_splits prod.splits)

lemma outgoing_loop_count:
  "outgoing_loop t env k n s = Ret OK s' \<Longrightarrow> \<forall>j. connect env j \<noteq> Inl OK \<Longrightarrow>
   length (mOutgoingConnections s') = length (mOutgoingConnections s) + n \<and>
   mIncomingConnections s' = mIncomingConnections s \<and>
   mMaxIncomingConnections s' = mMaxIncomingConnections s \<and>
   mMaxThreads s' = mMaxThreads s"
proof (induction n arbitrary: k s)
  case 0
  then show ?case by simp
next
  case (Suc n)
  show ?case
  proof (cases "connectAndInit t env k False s")
    case (Ret st s1)
    show ?thesis
    proof (cases "st = OK")
      case True
      then have l: "outgoing_loop t env (k + 1) n s1 = Ret OK s'" using Suc.prems(1) Ret by simp
      have c: "connect env k \<noteq> Inl OK" using Suc.prems(2) by simp
      from connectAndInit_outgoing[OF Ret[unfolded True] c] Suc.IH[OF l Suc.prems(2)]
      show ?thesis by simp
    next
      case False
      then show ?thesis using Suc.prems(1) Ret by simp
    qed
  qed (use Suc.prems in simp_all)
qed

lemma incoming_loop_count:
  "incoming_loop t env k i n s = Ret OK s' \<Longrightarrow> \<forall>j. connect env j \<noteq> Inl OK \<Longrightarrow>
   \<forall>j. exits env j = [] \<Longrightarrow>
   length (mIncomingConnections s) = i \<Longrightarrow> mMaxIncomingConnections s \<le> i \<Longrightarrow>
   i \<le> mMaxThreads s \<Longrightarrow>
   mOutgoingConnections s' = mOutgoingConnections s \<and>
   length (mIncomingConnections s') = mMaxThreads s \<and>
   mMaxThreads s' = mMaxThreads s"
proof (induction n arbitrary: k i s)
  case 0
  then show ?case by (simp split: if_splits)
next
  case (Suc n)
  show ?case
  proof (cases "i < mMaxThreads s")
    case False
    then show ?thesis using Suc.prems by simp
  next
    case lt: True
    show ?thesis
    proof (cases "connectAndInit t env k True s")
      case (Ret st s1)
      show ?thesis
      proof (cases "st = OK")
        case True
        have l: "incoming_loop t env (k + 1) (i + 1) n s1 = Ret OK s'"
          using Suc.prems(1,3) Ret True lt by simp
        have c: "connect env k \<noteq> Inl OK" using Suc.prems(2) by simp
        have a: "length (mIncomingConnections s) < mMaxThreads s"
          "mMaxIncomingConnections s \<le> length (mIncomingConnections s)"
          using lt Suc.prems(4,5) by simp_all
        note f = connectAndInit_incoming[OF Ret[unfolded True] c a]
        have "mOutgoingConnections s' = mOutgoingConnections s1 \<and>
          length (mIncomingConnections s') = mMaxThreads s1 \<and> mMaxThreads s' = mMaxThreads s1"
          using f Suc.prems(4) lt by (intro Suc.IH[OF l Suc.prems(2,3)]) simp_all
        then show ?thesis using f by simp
      next
        case False
        then show ?thesis using Suc.prems(1) Ret lt by simp
      qed
    qed (use Suc.prems lt in simp_all)
  qed
qed

lemma connectAndInit_mMaxThreads:
  "connectAndInit t env k incoming s = Ret st s' \<Longrightarrow> mMaxThreads s' = mMaxThreads s"
  by (auto simp add: connectAndInit_def initAndAddConnection_def addIncomingConnection_def
      preJoinThreadOwnership_def preJoinSetup_def assignIncomingConnectionToThisThread_def
      addOutgoingConnection_def addOutgoingConnection_push_def set_exclusiveTid_def
      RpcConnection_make_def init_connection_def Let_def
      split: sum.splits option.splits if_splits prod.splits)

lemma connectAndInit_not_Block: "connectAndInit t env k incoming s \<noteq> Block"
  by (auto simp add: connectAndInit_def split: sum.splits option.splits prod.splits)

lemma join_exit_mMaxThreads:
  "RpcSession_join_exit w c s = Some s' \<Longrightarrow> mMaxThreads s' = mMaxThreads s"
  by (auto simp add: RpcSession_join_exit_def join_erase_thread_def removeIncomingConnection_def
      removeIncomingConnection_locked_def removeIncomingConnection_callback_def
      onSessionAllIncomingThreadsEnded_def onSessionIncomingThreadEnded_def Let_def
      split: option.splits if_splits prod.splits bool.splits EventListener.splits)

lemma workers_exit_mMaxThreads:
  "workers_exit ws s = Some s' \<Longrightarrow> mMaxThreads s' = mMaxThreads s"
proof (induction ws arbitrary: s)
  case Nil
  then show ?case by simp
next
  case (Cons p ws)
  obtain w c where p: "p = (w, c)" by (cases p)
  from Cons.prems p obtain s1 where s1: "RpcSession_join_exit w c s = Some s1"
    "workers_exit ws s1 = Some s'" by (auto split: option.splits)
  show ?case using Cons.IH[OF s1(2)] join_exit_mMaxThreads[OF s1(1)] by simp
qed

text \<open>The fuel of the second loop is enough.\<close>

lemma incoming_loop_fuel:
  "mMaxThreads s \<le> i + n \<Longrightarrow> incoming_loop t env k i n s \<noteq> Block"
proof (induction n arbitrary: k i s)
  case 0
  then show ?case by simp
next
  case (Suc n)
  show ?case
  proof (cases "i < mMaxThreads s")
    case False
    then show ?thesis by simp
  next
    case lt: True
    show ?thesis
    proof (cases "connectAndInit t env k True s")
      case (Ret st s1)
      note m1 = connectAndInit_mMaxThreads[OF Ret]
      show ?thesis
      proof (cases "st = OK")
        case True
        show ?thesis
        proof (cases "workers_exit (exits env i) s1")
          case None
          then show ?thesis using Ret True lt by simp
        next
          case (Some s2)
          have "mMaxThreads s2 \<le> (i + 1) + n"
            using workers_exit_mMaxThreads[OF Some] m1 Suc.prems by simp
          from Suc.IH[OF this] show ?thesis using Ret True lt Some by simp
        qed
      next
        case False
        then show ?thesis using Ret lt by simp
      qed
    next
      case Block
      then show ?thesis using connectAndInit_not_Block by blast
    next
      case Abort
      then show ?thesis using lt by simp
    qed
  qed
qed

text \<open>
  For a socket client, \<^verbatim>\<open>connectAndInit\<close> is \<^verbatim>\<open>setupOneSocketConnection\<close>: the
  \<open>connect\<close> of the environment is the result of the connect loop, which is not
  \<^verbatim>\<open>OK\<close> when it is a status, since a system call that fails sets a nonzero errno.
\<close>

lemma connectAndInit_socket:
  "connect env k = ct_result (connect_loop os 0 0 []) \<Longrightarrow>
   connectAndInit t env k incoming s =
     setupOneSocketConnection os
       (\<lambda>fd. case initAndAddConnection t (conn env k) fd incoming s of
                None \<Rightarrow> Abort
              | Some (status, s') \<Rightarrow> Ret status s')
       (\<lambda>status. Ret status s)"
  by (simp add: connectAndInit_def setupOneSocketConnection_def)

lemma connect_pass_not_OK:
  "socket_ret a \<noteq> Inl 0 \<Longrightarrow> getsockopt_ret a \<noteq> Inl 0 \<Longrightarrow> connect_pass a \<noteq> Leave (Inl OK)"
  by (auto simp add: connect_pass_def resolve_connErrno_def OK_def
      split: sum.splits option.splits resolved.splits if_splits)

lemma connect_loop_not_OK:
  "\<forall>j. socket_ret (os j) \<noteq> Inl 0 \<and> getsockopt_ret (os j) \<noteq> Inl 0 \<Longrightarrow>
   ct_result (connect_loop os tries connects usleeps) \<noteq> Inl OK"
proof (induction "5 - tries" arbitrary: tries connects usleeps)
  case 0
  then have "\<not> tries < 5" by simp
  from connect_loop_exhausted[OF this] show ?case by (simp add: status_defs)
next
  case (Suc n)
  then have lt: "tries < 5" by simp
  show ?case
  proof (cases "connect_pass (os tries)")
    case Continue
    have n: "n = 5 - (tries + 1)" using Suc(2) by simp
    show ?thesis
      unfolding connect_loop_continue[of tries os, OF lt Continue]
      using Suc(1)[OF n Suc.prems] .
  next
    case (Leave r)
    have "r \<noteq> Inl OK" using Leave connect_pass_not_OK[of "os tries"] Suc.prems by auto
    then show ?thesis unfolding connect_loop_leave[of tries os, OF lt Leave] by simp
  qed
qed

text \<open>
  The calls of \<^verbatim>\<open>connectAndInit\<close> are counted across both loops: when the remote side
  reports no thread, the first incoming connection is made by the second call. An
  environment whose second call fails with \<^verbatim>\<open>BAD_VALUE\<close> makes the setup return
  \<^verbatim>\<open>BAD_VALUE\<close>, with the seed connection in the outgoing pool and no incoming one.
\<close>

lemma setup_second_call_is_incoming:
  "case setupClient 1 0xF0000000 7
          ((good_env 0)\<lparr>connect := (\<lambda>k. if k = 1 then Inl BAD_VALUE else Inr (int k + 3))\<rparr>)
          (new_session\<lparr>mMaxThreads := 2\<rparr>) of
     Ret st s' \<Rightarrow> st = BAD_VALUE \<and> length (mOutgoingConnections s') = 1 \<and>
       mIncomingConnections s' = []
   | Block \<Rightarrow> False | Abort \<Rightarrow> False"
  by code_simp

text \<open>
  The second loop leaves the outgoing pool and \<^verbatim>\<open>mMaxThreads\<close> alone, whatever the
  workers do meanwhile.
\<close>

lemma connectAndInit_True_outgoing:
  "connectAndInit t env k True s = Ret st s' \<Longrightarrow>
   mOutgoingConnections s' = mOutgoingConnections s"
  by (auto simp add: connectAndInit_def initAndAddConnection_def addIncomingConnection_def
      preJoinThreadOwnership_def preJoinSetup_def assignIncomingConnectionToThisThread_def
      RpcConnection_make_def init_connection_def Let_def
      split: sum.splits option.splits if_splits prod.splits)

lemma join_exit_outgoing:
  "RpcSession_join_exit w c s = Some s' \<Longrightarrow> mOutgoingConnections s' = mOutgoingConnections s"
  by (auto simp add: RpcSession_join_exit_def join_erase_thread_def removeIncomingConnection_def
      removeIncomingConnection_locked_def removeIncomingConnection_callback_def
      onSessionAllIncomingThreadsEnded_def onSessionIncomingThreadEnded_def Let_def
      split: option.splits if_splits prod.splits bool.splits EventListener.splits)

lemma workers_exit_outgoing:
  "workers_exit ws s = Some s' \<Longrightarrow> mOutgoingConnections s' = mOutgoingConnections s"
proof (induction ws arbitrary: s)
  case Nil
  then show ?case by simp
next
  case (Cons p ws)
  obtain w c where p: "p = (w, c)" by (cases p)
  from Cons.prems p obtain s1 where s1: "RpcSession_join_exit w c s = Some s1"
    "workers_exit ws s1 = Some s'" by (auto split: option.splits)
  show ?case using Cons.IH[OF s1(2)] join_exit_outgoing[OF s1(1)] by simp
qed

lemma incoming_loop_outgoing:
  "incoming_loop t env k i n s = Ret st s' \<Longrightarrow>
   mOutgoingConnections s' = mOutgoingConnections s \<and> mMaxThreads s' = mMaxThreads s"
proof (induction n arbitrary: k i s)
  case 0
  then show ?case by (simp split: if_splits)
next
  case (Suc n)
  show ?case
  proof (cases "i < mMaxThreads s")
    case False
    then show ?thesis using Suc.prems by simp
  next
    case lt: True
    show ?thesis
    proof (cases "connectAndInit t env k True s")
      case (Ret st1 s1)
      note f1 = connectAndInit_True_outgoing[OF Ret] connectAndInit_mMaxThreads[OF Ret]
      show ?thesis
      proof (cases "st1 = OK")
        case True
        show ?thesis
        proof (cases "workers_exit (exits env i) s1")
          case None
          then show ?thesis using Suc.prems Ret True lt by simp
        next
          case (Some s2)
          have l: "incoming_loop t env (k + 1) (i + 1) n s2 = Ret st s'"
            using Suc.prems Ret True lt Some by simp
          show ?thesis
            using Suc.IH[OF l] workers_exit_outgoing[OF Some] workers_exit_mMaxThreads[OF Some] f1
            by simp
        qed
      next
        case False
        then show ?thesis using Suc.prems Ret lt f1 by simp
      qed
    qed (use Suc.prems lt in simp_all)
  qed
qed

text \<open>
  Claim C8, as amended. Take an environment in which a connection attempt that adds
  no connection does not report \<^verbatim>\<open>OK\<close>, and a run of \<^verbatim>\<open>setupClient\<close> that returns
  \<^verbatim>\<open>OK\<close>. Then the outgoing pool holds the seed connection and
  \<open>remote max_threads - 1\<close> further ones (none when the remote side reports 0), which
  is the number of threads the remote side reported whenever that is at least 1, and
  \<^verbatim>\<open>mMaxThreads\<close> is as it was configured. If moreover the session had no incoming
  connection before the setup and no incoming worker leaves during it, the incoming
  pool holds as many connections as \<^verbatim>\<open>mMaxThreads\<close> was configured to.
\<close>

theorem setup_pool_sizes:
  assumes "setupClient vn ve t env s = Ret OK s'" "\<forall>k. connect env k \<noteq> Inl OK"
  shows "length (mOutgoingConnections s') = 1 + (snd (remoteMaxThreads env) - 1) \<and>
         (1 \<le> snd (remoteMaxThreads env) \<longrightarrow>
            length (mOutgoingConnections s') = snd (remoteMaxThreads env)) \<and>
         mMaxThreads s' = mMaxThreads s \<and>
         (mIncomingConnections s = [] \<and> mMaxIncomingConnections s = 0 \<and>
          (\<forall>i. exits env i = []) \<longrightarrow>
            length (mIncomingConnections s') = mMaxThreads s)"
proof -
  from assms(1) obtain s0 s1 s2 s3 s4 s5 n where steps:
    "mOutgoingConnections s = []"
    "initShutdownTrigger (trigger_made env) s = (OK, s0)"
    "connectAndInit t env 0 False s0 = Ret OK s1"
    "readNewSession vn ve t env s1 = Ret OK s2"
    "getRemoteMaxThreads t env s2 = Ret (OK, n) s3"
    "readId t env s3 = Ret OK s4"
    "outgoing_loop t env 1 (n - 1) s4 = Ret OK s5"
    "incoming_loop t env (1 + (n - 1)) 0 (mMaxThreads s5) s5 = Ret OK s'"
    by (auto simp add: setupClient_def split: if_splits call.splits prod.splits)
  have c0: "connect env 0 \<noteq> Inl OK" using assms(2) by simp
  note f0 = initShutdownTrigger_pools[OF steps(2)]
  note f1 = connectAndInit_outgoing[OF steps(3) c0]
  note f2 = readNewSession_pools[OF steps(4), unfolded pools_def]
  note f3 = getRemoteMaxThreads_pools[OF steps(5), unfolded pools_def]
  note f4 = readId_pools[OF steps(6), unfolded pools_def]
  note f5 = outgoing_loop_count[OF steps(7) assms(2)]
  note f6 = incoming_loop_outgoing[OF steps(8)]
  have "(OK, n) = remoteMaxThreads env"
    using getRemoteMaxThreads_pools[OF steps(5)] by simp
  then have n: "n = snd (remoteMaxThreads env)" by (metis snd_conv)
  have o5: "length (mOutgoingConnections s5) = 1 + (n - 1)"
    using f0 f1 f2 f3 f4 f5 steps(1) by simp
  have m5: "mMaxThreads s5 = mMaxThreads s"
    using f0 f1 f2 f3 f4 f5 by simp
  have out: "length (mOutgoingConnections s') = 1 + (n - 1)" "mMaxThreads s' = mMaxThreads s"
    using f6 o5 m5 by simp_all
  have inc: "length (mIncomingConnections s') = mMaxThreads s"
    if h: "mIncomingConnections s = []" "mMaxIncomingConnections s = 0" "\<forall>i. exits env i = []"
  proof -
    have i5: "length (mIncomingConnections s5) = 0" "mMaxIncomingConnections s5 \<le> 0"
      using f0 f1 f2 f3 f4 f5 h(1,2) by simp_all
    have "mOutgoingConnections s' = mOutgoingConnections s5 \<and>
       length (mIncomingConnections s') = mMaxThreads s5 \<and> mMaxThreads s' = mMaxThreads s5"
      using i5 by (intro incoming_loop_count[OF steps(8) assms(2) h(3)]) simp_all
    then show ?thesis using m5 by simp
  qed
  show ?thesis using out inc n by auto
qed

text \<open>A remote side with 3 threads and a local limit of 2, on a new session.\<close>

theorem setup_pool_sizes_witness:
  "\<exists>s'. setupClient 1 0xF0000000 7 (good_env 3) (new_session\<lparr>mMaxThreads := 2\<rparr>) = Ret OK s' \<and>
     snd (remoteMaxThreads (good_env 3)) = 3 \<and>
     length (mOutgoingConnections s') = 3 \<and> mMaxThreads s' = 2 \<and>
     length (mIncomingConnections s') = 2"
proof -
  have "case setupClient 1 0xF0000000 7 (good_env 3) (new_session\<lparr>mMaxThreads := 2\<rparr>) of
          Ret st s' \<Rightarrow> st = OK | Block \<Rightarrow> False | Abort \<Rightarrow> False"
    by code_simp
  then obtain s' where
    r: "setupClient 1 0xF0000000 7 (good_env 3) (new_session\<lparr>mMaxThreads := 2\<rparr>) = Ret OK s'"
    by (auto split: call.splits)
  have h: "\<forall>k. connect (good_env 3) k \<noteq> Inl OK" by (simp add: good_env_def)
  have g: "mIncomingConnections (new_session\<lparr>mMaxThreads := 2\<rparr>) = []"
    "mMaxIncomingConnections (new_session\<lparr>mMaxThreads := 2\<rparr>) = 0"
    "\<forall>i. exits (good_env 3) i = []"
    "mMaxThreads (new_session\<lparr>mMaxThreads := 2\<rparr>) = 2"
    "snd (remoteMaxThreads (good_env 3)) = 3"
    by (simp_all add: new_session_def good_env_def)
  show ?thesis using setup_pool_sizes[OF r h] r g by simp
qed

text \<open>
  Claim C8 as stated fails in both halves.

  The outgoing half fails when the remote side reports no thread: the seed connection
  is there before the number is read, and the first loop, which runs while
  \<^verbatim>\<open>i + 1 < numThreadsAvailable\<close>, adds none. In \<open>good_env 0\<close> the setup returns \<^verbatim>\<open>OK\<close>
  with one outgoing connection.

  The incoming half fails when a worker leaves during the setup: in \<open>leaving_env\<close>
  the worker of the first incoming connection runs the end of \<^verbatim>\<open>join\<close> before the
  second connection is added, the second worker is turned away because the pool is
  below its high-water mark, \<^verbatim>\<open>addIncomingConnection\<close> returns \<^verbatim>\<open>OK\<close> all the same,
  and the setup returns \<^verbatim>\<open>OK\<close> with an empty incoming pool and \<^verbatim>\<open>mMaxThreads = 2\<close>,
  while the outgoing pool holds the one connection that the remote side's one thread
  asks for.
\<close>

theorem setup_incoming_counterexample:
  "(\<exists>s'. setupClient 1 0xF0000000 7 (good_env 0) (new_session\<lparr>mMaxThreads := 2\<rparr>) = Ret OK s' \<and>
      snd (remoteMaxThreads (good_env 0)) = 0 \<and>
      length (mOutgoingConnections s') = 1) \<and>
   (\<exists>s'. setupClient 1 0xF0000000 7 leaving_env (new_session\<lparr>mMaxThreads := 2\<rparr>) = Ret OK s' \<and>
      mMaxThreads (new_session\<lparr>mMaxThreads := 2\<rparr>) = 2 \<and>
      snd (remoteMaxThreads leaving_env) = 1 \<and>
      length (mOutgoingConnections s') = 1 \<and>
      mMaxThreads s' = 2 \<and> mMaxIncomingConnections s' = 1 \<and>
      length (mIncomingConnections s') = 0)"
proof -
  have "case setupClient 1 0xF0000000 7 (good_env 0) (new_session\<lparr>mMaxThreads := 2\<rparr>) of
          Ret st s' \<Rightarrow> st = OK \<and> length (mOutgoingConnections s') = 1
        | Block \<Rightarrow> False | Abort \<Rightarrow> False"
    by code_simp
  then have a: "\<exists>s'. setupClient 1 0xF0000000 7 (good_env 0) (new_session\<lparr>mMaxThreads := 2\<rparr>) =
      Ret OK s' \<and> snd (remoteMaxThreads (good_env 0)) = 0 \<and>
      length (mOutgoingConnections s') = 1"
    by (auto simp add: good_env_def split: call.splits)
  have "case setupClient 1 0xF0000000 7 leaving_env (new_session\<lparr>mMaxThreads := 2\<rparr>) of
          Ret st s' \<Rightarrow> st = OK \<and> length (mOutgoingConnections s') = 1 \<and>
            mMaxThreads s' = 2 \<and> mMaxIncomingConnections s' = 1 \<and>
            length (mIncomingConnections s') = 0
        | Block \<Rightarrow> False | Abort \<Rightarrow> False"
    by code_simp
  then have b: "\<exists>s'. setupClient 1 0xF0000000 7 leaving_env (new_session\<lparr>mMaxThreads := 2\<rparr>) =
      Ret OK s' \<and> mMaxThreads (new_session\<lparr>mMaxThreads := 2\<rparr>) = 2 \<and>
      snd (remoteMaxThreads leaving_env) = 1 \<and>
      length (mOutgoingConnections s') = 1 \<and>
      mMaxThreads s' = 2 \<and> mMaxIncomingConnections s' = 1 \<and>
      length (mIncomingConnections s') = 0"
    by (auto simp add: new_session_def leaving_env_def good_env_def split: call.splits)
  from a b show ?thesis by simp
qed

subsection \<open>Shutdown\<close>

lemma inv_pools: "pools s' = pools s \<Longrightarrow> shutdown_inv s' = shutdown_inv s"
  by (simp add: pools_def shutdown_inv_def drained_def)

lemma assign_inv:
  "shutdown_inv s \<Longrightarrow> shutdown_inv (snd (assignIncomingConnectionToThisThread t tr s))"
  by (auto simp add: shutdown_inv_def drained_def assignIncomingConnectionToThisThread_def
      RpcConnection_make_def init_connection_def Let_def split: if_splits)

lemma remove_locked_inv:
  assumes "shutdown_inv s" "removeIncomingConnection_locked c s = (True, s')"
  shows "shutdown_inv s'"
proof -
  have mem: "c \<in> set (mIncomingConnections s)"
    using assms(2) by (auto simp add: removeIncomingConnection_locked_def split: if_splits)
  then have ne: "mIncomingConnections s \<noteq> []" by auto
  then have nd: "\<not> drained s" using assms(1) by (auto simp add: shutdown_inv_def split: if_splits)
  have len: "length (remove1 c (mIncomingConnections s)) = length (mIncomingConnections s) - 1"
    using mem by (simp add: length_remove1)
  have pos: "0 < mMaxIncomingConnections s"
    using assms(1) ne by (cases "mIncomingConnections s") (auto simp add: shutdown_inv_def)
  show ?thesis
    using assms nd len pos mem
    by (auto simp add: removeIncomingConnection_locked_def shutdown_inv_def drained_def Let_def
        split: if_splits)
qed

lemma callback_inv:
  "shutdown_inv s \<Longrightarrow> shutdown_inv (removeIncomingConnection_callback s)"
  by (auto simp add: removeIncomingConnection_callback_def onSessionAllIncomingThreadsEnded_def
      shutdown_inv_def drained_def split: if_splits EventListener.splits)

lemma apply_event_inv:
  assumes "shutdown_inv s" "apply_event e s = Some s'"
  shows "shutdown_inv s'"
proof (cases e)
  case EvTimeout
  then show ?thesis using assms by simp
next
  case (EvThreadOwnership t)
  then show ?thesis using assms
    by (auto simp add: preJoinThreadOwnership_def shutdown_inv_def drained_def split: if_splits)
next
  case (EvAssignIncoming t tr)
  then show ?thesis using assms assign_inv by auto
next
  case (EvEraseThread t)
  then show ?thesis using assms
    by (auto simp add: join_erase_thread_def shutdown_inv_def drained_def split: option.splits)
next
  case (EvRemoveIncoming c)
  then show ?thesis using assms remove_locked_inv
    by (auto split: prod.splits bool.splits)
next
  case EvAllIncomingThreadsEnded
  then show ?thesis using assms callback_inv by auto
next
  case EvIncomingThreadEnded
  then show ?thesis using assms
    by (auto simp add: onSessionIncomingThreadEnded_def shutdown_inv_def drained_def
        split: EventListener.splits)
next
  case (EvAcquire t use)
  then have "result_session (ExclusiveConnection_find t use [] s) = Some s'"
    using assms(2) by (auto simp add: result_session_def split: find_result.splits)
  from find_pools[OF this] show ?thesis using assms(1) inv_pools by blast
next
  case (EvRelease c)
  then show ?thesis using assms inv_pools[of "ExclusiveConnection_destroy c s" s] by auto
qed

lemma apply_events_inv:
  "shutdown_inv s \<Longrightarrow> apply_events es s = Some s' \<Longrightarrow> shutdown_inv s'"
proof (induction es arbitrary: s)
  case Nil
  then show ?case by simp
next
  case (Cons e es)
  from Cons.prems(2) obtain s1 where s1: "apply_event e s = Some s1" "apply_events es s1 = Some s'"
    by (auto split: option.splits)
  show ?case using Cons.IH[OF apply_event_inv[OF Cons.prems(1) s1(1)] s1(2)] .
qed

lemma waitForShutdown_inv:
  "shutdown_inv s \<Longrightarrow> waitForShutdown env s = Woken s' \<Longrightarrow>
   shutdown_inv s' \<and> mShutdownListener s' = Some True"
proof (induction env arbitrary: s)
  case Nil
  then show ?case by (auto split: if_splits)
next
  case (Cons es env)
  show ?case
  proof (cases "mShutdownListener s = Some True")
    case True
    then show ?thesis using Cons.prems by simp
  next
    case False
    then obtain s1 where s1: "apply_events es s = Some s1" "waitForShutdown env s1 = Woken s'"
      using Cons.prems(2) by (auto split: option.splits)
    show ?thesis using Cons.IH[OF apply_events_inv[OF Cons.prems(1) s1(1)] s1(2)] .
  qed
qed


text \<open>The invariant holds of a session as constructed and is kept by a client setup.\<close>

lemma new_session_inv: "shutdown_inv new_session"
  by (simp add: shutdown_inv_def drained_def new_session_def)

lemma initShutdownTrigger_inv:
  "shutdown_inv s \<Longrightarrow> initShutdownTrigger made s = (st, s') \<Longrightarrow> shutdown_inv s'"
  by (auto simp add: initShutdownTrigger_def shutdown_inv_def drained_def Let_def split: if_splits)

lemma addIncomingConnection_inv:
  assumes "shutdown_inv s" "addIncomingConnection w tr rc s = Some (st, r, s')"
  shows "shutdown_inv s'"
proof -
  let ?s1 = "s\<lparr>mThreads := AList.update w (Thread w) (mThreads s)\<rparr>"
  have i1: "shutdown_inv ?s1" using assms(1) by (simp add: shutdown_inv_def drained_def)
  have "s' = snd (assignIncomingConnectionToThisThread w tr ?s1)"
    using assms(2)
    by (auto simp add: addIncomingConnection_def preJoinThreadOwnership_def preJoinSetup_def
        split: option.splits prod.splits)
  then show ?thesis using assign_inv[OF i1] by simp
qed

lemma addOutgoingConnection_inv:
  "shutdown_inv s \<Longrightarrow> shutdown_inv (snd (addOutgoingConnection t tr init (\<lambda>c x. x) s))"
  by (simp add: addOutgoingConnection_def addOutgoingConnection_push_def RpcConnection_make_def
      init_connection_def set_exclusiveTid_def Let_def shutdown_inv_def drained_def)

lemma connectAndInit_inv:
  assumes "shutdown_inv s" "connectAndInit t env k incoming s = Ret st s'"
  shows "shutdown_inv s'"
proof (cases "connect env k")
  case (Inl a)
  then show ?thesis using assms by (simp add: connectAndInit_def)
next
  case (Inr fd)
  then obtain r where r: "initAndAddConnection t (conn env k) fd incoming s = Some (st, s')"
    using assms(2) by (auto simp add: connectAndInit_def split: option.splits)
  show ?thesis
  proof (cases incoming)
    case True
    then show ?thesis
      using r assms(1) addIncomingConnection_inv[OF assms(1)]
      by (auto simp add: initAndAddConnection_def split: if_splits option.splits prod.splits)
  next
    case False
    show ?thesis
    proof (cases "newTransport (conn env k)")
      case None
      then show ?thesis using r assms(1)
        by (auto simp add: initAndAddConnection_def split: if_splits)
    next
      case (Some server)
      have "s' = s \<or> s' = snd (addOutgoingConnection t server True (\<lambda>c x. x) s)"
        using r False Some
        by (auto simp add: initAndAddConnection_def split: if_splits)
      then show ?thesis using assms(1) addOutgoingConnection_inv[OF assms(1)] by auto
    qed
  qed
qed

lemma join_exit_inv:
  assumes "shutdown_inv s" "RpcSession_join_exit w c s = Some s'"
  shows "shutdown_inv s'"
proof -
  from assms(2) obtain s1 where s1: "join_erase_thread w s = Some s1"
    by (auto simp add: RpcSession_join_exit_def split: option.splits)
  then have i1: "shutdown_inv s1" using assms(1)
    by (auto simp add: join_erase_thread_def shutdown_inv_def drained_def split: option.splits)
  have n: "shutdown_inv x \<Longrightarrow> shutdown_inv (onSessionIncomingThreadEnded x)" for x
    by (auto simp add: onSessionIncomingThreadEnded_def shutdown_inv_def drained_def
        split: EventListener.splits)
  show ?thesis
  proof (cases c)
    case None
    then show ?thesis using assms(2) s1 i1 n by (auto simp add: RpcSession_join_exit_def)
  next
    case (Some a)
    obtain s2 where l: "removeIncomingConnection_locked a s1 = (True, s2)"
      and r: "s' = onSessionIncomingThreadEnded
                (if mPendingAllEnded s2 > mPendingAllEnded s1
                 then removeIncomingConnection_callback s2 else s2)"
      using assms(2) s1 Some
      by (auto simp add: RpcSession_join_exit_def removeIncomingConnection_def
          split: prod.splits bool.splits)
    have i2: "shutdown_inv s2" using remove_locked_inv[OF i1 l] .
    show ?thesis unfolding r using i2 callback_inv[OF i2] n by simp
  qed
qed

lemma workers_exit_inv:
  "shutdown_inv s \<Longrightarrow> workers_exit ws s = Some s' \<Longrightarrow> shutdown_inv s'"
proof (induction ws arbitrary: s)
  case Nil
  then show ?case by simp
next
  case (Cons p ws)
  obtain w c where p: "p = (w, c)" by (cases p)
  from Cons.prems p obtain s1 where s1: "RpcSession_join_exit w c s = Some s1"
    "workers_exit ws s1 = Some s'" by (auto split: option.splits)
  show ?case using Cons.IH[OF join_exit_inv[OF Cons.prems(1) s1(1)] s1(2)] .
qed

lemma outgoing_loop_inv:
  "shutdown_inv s \<Longrightarrow> outgoing_loop t env k n s = Ret st s' \<Longrightarrow> shutdown_inv s'"
proof (induction n arbitrary: k s)
  case 0
  then show ?case by simp
next
  case (Suc n)
  show ?case
  proof (cases "connectAndInit t env k False s")
    case (Ret st1 s1)
    note i1 = connectAndInit_inv[OF Suc.prems(1) Ret]
    show ?thesis
    proof (cases "st1 = OK")
      case True
      then have "outgoing_loop t env (k + 1) n s1 = Ret st s'" using Suc.prems(2) Ret by simp
      from Suc.IH[OF i1 this] show ?thesis .
    next
      case False
      then show ?thesis using Suc.prems(2) Ret i1 by simp
    qed
  qed (use Suc.prems in simp_all)
qed

lemma incoming_loop_inv:
  "shutdown_inv s \<Longrightarrow> incoming_loop t env k i n s = Ret st s' \<Longrightarrow> shutdown_inv s'"
proof (induction n arbitrary: k i s)
  case 0
  then show ?case by (simp split: if_splits)
next
  case (Suc n)
  show ?case
  proof (cases "i < mMaxThreads s")
    case False
    then show ?thesis using Suc.prems by simp
  next
    case lt: True
    show ?thesis
    proof (cases "connectAndInit t env k True s")
      case (Ret st1 s1)
      note i1 = connectAndInit_inv[OF Suc.prems(1) Ret]
      show ?thesis
      proof (cases "st1 = OK")
        case True
        then obtain s2 where s2: "workers_exit (exits env i) s1 = Some s2"
          "incoming_loop t env (k + 1) (i + 1) n s2 = Ret st s'"
          using Suc.prems(2) Ret lt by (auto split: option.splits)
        from Suc.IH[OF workers_exit_inv[OF i1 s2(1)] s2(2)] show ?thesis .
      next
        case False
        then show ?thesis using Suc.prems(2) Ret lt i1 by simp
      qed
    qed (use Suc.prems lt in simp_all)
  qed
qed

lemma setupClient_inv:
  assumes "shutdown_inv s" "setupClient vn ve t env s = Ret st s'"
  shows "shutdown_inv s'"
proof -
  obtain st0 s0 where s0: "initShutdownTrigger (trigger_made env) s = (st0, s0)"
    by (cases "initShutdownTrigger (trigger_made env) s")
  note i0 = initShutdownTrigger_inv[OF assms(1) s0]
  show ?thesis
  proof (cases "st0 = OK")
    case False
    then show ?thesis using assms(2) s0 i0 by (auto simp add: setupClient_def split: if_splits)
  next
    case ok0: True
    show ?thesis
    proof (cases "connectAndInit t env 0 False s0")
      case (Ret st1 s1)
      note i1 = connectAndInit_inv[OF i0 Ret]
      show ?thesis
      proof (cases "st1 = OK")
        case False
        then show ?thesis using assms(2) s0 ok0 Ret i1
          by (auto simp add: setupClient_def split: if_splits)
      next
        case ok1: True
        show ?thesis
        proof (cases "readNewSession vn ve t env s1")
          case (Ret st2 s2)
          have i2: "shutdown_inv s2" using readNewSession_pools[OF Ret] i1 inv_pools by blast
          show ?thesis
          proof (cases "st2 = OK")
            case False
            then show ?thesis using assms(2) s0 ok0 \<open>connectAndInit t env 0 False s0 = Ret st1 s1\<close> ok1 Ret i2
              by (auto simp add: setupClient_def split: if_splits)
          next
            case ok2: True
            show ?thesis
            proof (cases "getRemoteMaxThreads t env s2")
              case (Ret r3 s3)
              obtain st3 n where r3: "r3 = (st3, n)" by (cases r3)
              have i3: "shutdown_inv s3"
                using getRemoteMaxThreads_pools[OF Ret] i2 inv_pools by blast
              show ?thesis
              proof (cases "st3 = OK")
                case False
                then show ?thesis
                  using assms(2) s0 ok0 \<open>connectAndInit t env 0 False s0 = Ret st1 s1\<close> ok1
                    \<open>readNewSession vn ve t env s1 = Ret st2 s2\<close> ok2 Ret r3 i3
                  by (auto simp add: setupClient_def split: if_splits)
              next
                case ok3: True
                show ?thesis
                proof (cases "readId t env s3")
                  case (Ret st4 s4)
                  have i4: "shutdown_inv s4" using readId_pools[OF Ret] i3 inv_pools by blast
                  show ?thesis
                  proof (cases "st4 = OK")
                    case False
                    then show ?thesis
                      using assms(2) s0 ok0 \<open>connectAndInit t env 0 False s0 = Ret st1 s1\<close> ok1
                        \<open>readNewSession vn ve t env s1 = Ret st2 s2\<close> ok2
                        \<open>getRemoteMaxThreads t env s2 = Ret r3 s3\<close> r3 ok3 Ret i4
                      by (auto simp add: setupClient_def split: if_splits)
                  next
                    case ok4: True
                    show ?thesis
                    proof (cases "outgoing_loop t env 1 (n - 1) s4")
                      case (Ret st5 s5)
                      note i5 = outgoing_loop_inv[OF i4 Ret]
                      have "st5 \<noteq> OK \<and> s' = s5 \<or>
                        incoming_loop t env (1 + (n - 1)) 0 (mMaxThreads s5) s5 = Ret st s'"
                        using assms(2) s0 ok0 \<open>connectAndInit t env 0 False s0 = Ret st1 s1\<close> ok1
                          \<open>readNewSession vn ve t env s1 = Ret st2 s2\<close> ok2
                          \<open>getRemoteMaxThreads t env s2 = Ret r3 s3\<close> r3 ok3
                          \<open>readId t env s3 = Ret st4 s4\<close> ok4 Ret
                        by (auto simp add: setupClient_def split: if_splits)
                      then show ?thesis using i5 incoming_loop_inv[OF i5] by blast
                    qed (use assms(2) s0 ok0 \<open>connectAndInit t env 0 False s0 = Ret st1 s1\<close> ok1
                          \<open>readNewSession vn ve t env s1 = Ret st2 s2\<close> ok2
                          \<open>getRemoteMaxThreads t env s2 = Ret r3 s3\<close> r3 ok3
                          \<open>readId t env s3 = Ret st4 s4\<close> ok4
                         in \<open>auto simp add: setupClient_def split: if_splits\<close>)
                  qed
                qed (use assms(2) s0 ok0 \<open>connectAndInit t env 0 False s0 = Ret st1 s1\<close> ok1
                      \<open>readNewSession vn ve t env s1 = Ret st2 s2\<close> ok2
                      \<open>getRemoteMaxThreads t env s2 = Ret r3 s3\<close> r3 ok3
                     in \<open>auto simp add: setupClient_def split: if_splits\<close>)
              qed
            qed (use assms(2) s0 ok0 \<open>connectAndInit t env 0 False s0 = Ret st1 s1\<close> ok1
                  \<open>readNewSession vn ve t env s1 = Ret st2 s2\<close> ok2
                 in \<open>auto simp add: setupClient_def split: if_splits\<close>)
          qed
        qed (use assms(2) s0 ok0 \<open>connectAndInit t env 0 False s0 = Ret st1 s1\<close> ok1
             in \<open>auto simp add: setupClient_def split: if_splits\<close>)
      qed
    qed (use assms(2) s0 ok0 in \<open>auto simp add: setupClient_def split: if_splits\<close>)
  qed
qed

text \<open>
  Claim C9. Take a session of which the invariant of the incoming pool holds, as it
  does of every session that a client setup has produced. If \<^verbatim>\<open>shutdownAndWait(true)\<close>
  returns, whatever the workers and the other threads did while it waited, then at
  the point where it gives up the mutex \<^verbatim>\<open>mThreads\<close> is empty and the incoming pool
  is empty: the wait ends only after a worker that emptied the pool has told the
  listener, from then on no connection is admitted, and the function aborts instead
  of returning when a worker is still registered.
\<close>

theorem shutdown_leaves_nothing:
  assumes "shutdown_inv s" "shutdownAndWait True env s = ShReturned b s'"
  shows "mThreads s' = [] \<and> mIncomingConnections s' = []"
proof -
  let ?s1 = "s\<lparr>mShutdownTrigger := Some True\<rparr>"
  have i1: "shutdown_inv ?s1" using assms(1) by (simp add: shutdown_inv_def drained_def)
  from assms(2) have w: "waitForShutdown env ?s1 = Woken s'" and th: "mThreads s' = []"
    by (auto simp add: shutdownAndWait_def Let_def
        split: option.splits wait_result.splits if_splits)
  from waitForShutdown_inv[OF i1 w] have "shutdown_inv s'" "mShutdownListener s' = Some True"
    by simp_all
  then have "mIncomingConnections s' = []" by (simp add: shutdown_inv_def drained_def)
  then show ?thesis using th by simp
qed


text \<open>A client set up with one outgoing and one incoming connection, shut down while
  its worker leaves.\<close>

theorem shutdown_leaves_nothing_witness:
  "\<exists>s s' b. setupClient 1 0xF0000000 7 (good_env 1) (new_session\<lparr>mMaxThreads := 1\<rparr>) = Ret OK s \<and>
     mIncomingConnections s = [1] \<and> map fst (mThreads s) = [21] \<and> shutdown_inv s \<and>
     shutdownAndWait True shutdown_env s = ShReturned b s' \<and>
     mThreads s' = [] \<and> mIncomingConnections s' = []"
proof -
  have "case setupClient 1 0xF0000000 7 (good_env 1) (new_session\<lparr>mMaxThreads := 1\<rparr>) of
          Ret st s \<Rightarrow>
            st = OK \<and> mIncomingConnections s = [1] \<and> map fst (mThreads s) = [21] \<and>
            shutdown_inv s \<and>
            (case shutdownAndWait True shutdown_env s of
               ShReturned b s' \<Rightarrow> True | ShWaiting \<Rightarrow> False | ShAborted \<Rightarrow> False)
        | Block \<Rightarrow> False | Abort \<Rightarrow> False"
    by code_simp
  then obtain s s' b where
    r: "setupClient 1 0xF0000000 7 (good_env 1) (new_session\<lparr>mMaxThreads := 1\<rparr>) = Ret OK s"
      "mIncomingConnections s = [1]" "map fst (mThreads s) = [21]" "shutdown_inv s"
      "shutdownAndWait True shutdown_env s = ShReturned b s'"
    by (auto split: call.splits shutdown_result.splits)
  from shutdown_leaves_nothing[OF r(4,5)] r show ?thesis
    by (intro exI[of _ s] exI[of _ s'] exI[of _ b]) simp
qed

section \<open>Further properties\<close>

text \<open>
  A call of \<^verbatim>\<open>find\<close> during which no other thread acts and which returns
  \<^verbatim>\<open>OK\<close> leaves \<^verbatim>\<open>mWaitingThreads\<close> as it found it and hands back a handle that is
  bound to a connection: the paths that leave the loop with \<^verbatim>\<open>break\<close> reach the
  decrement.
\<close>

theorem find_ok_restores_waiting:
  "ExclusiveConnection_find t use [] s = Returned OK s' c \<longrightarrow>
     mWaitingThreads s' = mWaitingThreads s \<and> mConnection c \<noteq> None"
proof
  assume r: "ExclusiveConnection_find t use [] s = Returned OK s' c"
  let ?s = "s\<lparr>mWaitingThreads := mWaitingThreads s + 1\<rparr>"
  from r obtain s1 where b: "find_body t use ?s = Break s1 c"
    and s': "s' = s1\<lparr>mWaitingThreads := mWaitingThreads s1 - 1\<rparr>"
    by (auto simp add: ExclusiveConnection_find_def status_defs split: find_step.splits list.splits)
  have w: "mWaitingThreads s1 = mWaitingThreads ?s \<and> mConnection c \<noteq> None"
  proof (cases "scan_outgoing t ?s")
    case None
    then show ?thesis using b by (simp add: find_body_def)
  next
    case (Some p)
    obtain ex av where p: "p = (ex, av)" by (cases p)
    show ?thesis
      using b Some p
      by (auto simp add: find_body_def Let_def set_exclusiveTid_def
          split: option.splits if_splits)
  qed
  then show "mWaitingThreads s' = mWaitingThreads s \<and> mConnection c \<noteq> None"
    using s' by simp
qed


text \<open>The client-side session with four waiters counted.\<close>

theorem find_ok_restores_waiting_witness:
  "\<exists>s' c. ExclusiveConnection_find 7 CLIENT [] (client_session\<lparr>mWaitingThreads := 4\<rparr>)
      = Returned OK s' c \<and> mWaitingThreads s' = 4 \<and> mConnection c \<noteq> None"
proof -
  have "(0::nat) \<in> set (mOutgoingConnections (client_session\<lparr>mWaitingThreads := 4\<rparr>))"
    "exclusiveTid (mStore (client_session\<lparr>mWaitingThreads := 4\<rparr>) 0) = None"
    "mOutgoingConnectionsOffset (client_session\<lparr>mWaitingThreads := 4\<rparr>)
       < length (mOutgoingConnections (client_session\<lparr>mWaitingThreads := 4\<rparr>))"
    by (simp_all add: client_session_def new_session_def new_connection_def)
  from find_ok_if_free[OF this, of 7 CLIENT "[]"] obtain s' c where
    r: "ExclusiveConnection_find 7 CLIENT [] (client_session\<lparr>mWaitingThreads := 4\<rparr>)
      = Returned OK s' c" by blast
  from find_ok_restores_waiting[of 7 CLIENT "client_session\<lparr>mWaitingThreads := 4\<rparr>" s' c] r
  show ?thesis by simp
qed


text \<open>
  When some connection of the outgoing pool is free and the cursor is within
  the pool, \<^verbatim>\<open>find\<close> returns \<^verbatim>\<open>OK\<close> without waiting, for every thread, every use and
  every schedule of the other threads.
\<close>

theorem find_succeeds_when_free:
  assumes "a \<in> set (mOutgoingConnections s)" "exclusiveTid (mStore s a) = None"
    "mOutgoingConnectionsOffset s < length (mOutgoingConnections s)"
  shows "\<exists>s' c. ExclusiveConnection_find t use env s = Returned OK s' c"
  using assms by (rule find_ok_if_free)

text \<open>Connection 2 of the client-side session is free; thread 9 adjusts a reference
  count.\<close>

theorem find_succeeds_when_free_witness:
  "2 \<in> set (mOutgoingConnections client_session) \<and>
   exclusiveTid (mStore client_session 2) = None \<and>
   mOutgoingConnectionsOffset client_session < length (mOutgoingConnections client_session) \<and>
   (\<exists>s' c. ExclusiveConnection_find 9 CLIENT_REFCOUNT [] client_session = Returned OK s' c)"
proof -
  have h: "2 \<in> set (mOutgoingConnections client_session)"
    "exclusiveTid (mStore client_session 2) = None"
    "mOutgoingConnectionsOffset client_session < length (mOutgoingConnections client_session)"
    by (simp_all add: client_session_def new_session_def new_connection_def)
  from find_succeeds_when_free[OF h, of 9 CLIENT_REFCOUNT "[]"] h show ?thesis by blast
qed

text \<open>
  The invariant of the incoming pool (the pool is no larger than its
  high-water mark; once a worker that emptied it has told the listener, or is about
  to, it is empty and the mark is positive) holds of a session as constructed, and of
  the session that \<^verbatim>\<open>setupClient\<close> returns whenever it holds of the session it is
  called on.
\<close>

theorem setup_keeps_invariant:
  "shutdown_inv new_session \<and>
   (shutdown_inv s \<and> setupClient vn ve t env s = Ret st s' \<longrightarrow> shutdown_inv s')"
  using new_session_inv setupClient_inv by blast


text \<open>The setup during which the first worker leaves.\<close>

theorem setup_keeps_invariant_witness:
  "\<exists>s'. setupClient 1 0xF0000000 7 leaving_env (new_session\<lparr>mMaxThreads := 2\<rparr>) = Ret OK s' \<and>
     shutdown_inv (new_session\<lparr>mMaxThreads := 2\<rparr>) \<and> shutdown_inv s'"
proof -
  have "case setupClient 1 0xF0000000 7 leaving_env (new_session\<lparr>mMaxThreads := 2\<rparr>) of
          Ret st s' \<Rightarrow> st = OK | Block \<Rightarrow> False | Abort \<Rightarrow> False"
    by code_simp
  then obtain s' where
    r: "setupClient 1 0xF0000000 7 leaving_env (new_session\<lparr>mMaxThreads := 2\<rparr>) = Ret OK s'"
    by (auto split: call.splits)
  have i: "shutdown_inv (new_session\<lparr>mMaxThreads := 2\<rparr>)"
    by (simp add: shutdown_inv_def drained_def new_session_def)
  from setup_keeps_invariant[of "new_session\<lparr>mMaxThreads := 2\<rparr>" 1 "0xF0000000" 7 leaving_env OK s'] r i
  show ?thesis by blast
qed

end
